theory Spec2Isabelle
  imports Complex_Main "HOL-Library.Stream"
begin

section \<open>Python values, failures and the random source\<close>

text \<open>
  The exceptions that the embedded code can raise. A function that can raise returns
  \<open>error + 'a\<close>, with \<open>Inl\<close> for the exception.
\<close>

datatype error = ValueError | IndexError | AttributeError | TypeError
  | StopIteration | InvalidArgumentError

text \<open>\<open>xs[i]\<close> for an index \<open>i \<ge> 0\<close>: IndexError out of range.\<close>

definition py_index :: "'a list \<Rightarrow> nat \<Rightarrow> error + 'a" where
  "py_index xs i = (if i < length xs then Inr (xs ! i) else Inl IndexError)"

text \<open>\<open>xs.index(x)\<close>: the first position of \<open>x\<close>, ValueError when it is absent.\<close>

fun list_index :: "'a list \<Rightarrow> 'a \<Rightarrow> error + nat" where
  "list_index [] x = Inl ValueError"
| "list_index (y # ys) x =
     (if y = x then Inr 0
      else (case list_index ys x of Inl e \<Rightarrow> Inl e | Inr i \<Rightarrow> Inr (Suc i)))"

text \<open>\<open>xs[a:b]\<close> for \<open>0 \<le> a \<le> b\<close>.\<close>

definition py_slice :: "'a list \<Rightarrow> nat \<Rightarrow> nat \<Rightarrow> 'a list" where
  "py_slice xs a b = take (b - a) (drop a xs)"

text \<open>
  The state of the global random generator is the stream of raw numbers it has yet to
  deliver. \<open>randint(a, b)\<close> raises ValueError on an empty range and otherwise consumes
  one raw number and returns a value of \<open>[a, b]\<close>; every value of the range is the
  image of some raw number.
\<close>

type_synonym rng = "nat stream"

definition randint :: "int \<Rightarrow> int \<Rightarrow> rng \<Rightarrow> error + int \<times> rng" where
  "randint a b s =
     (if b < a then Inl ValueError
      else Inr (a + int (shd s) mod (b - a + 1), stl s))"


section \<open>InputGenerator\<close>

text \<open>
  The attributes of an \<open>InputGenerator\<close> object. \<open>reader\<close> holds the rows that the
  csv reader has not delivered yet, \<open>preprocessor\<close> is the \<open>tokenize_tweet\<close> method of
  the preprocessor object, \<open>vocab\<close> lists the vocabulary in id order.
\<close>

record input_generator =
  reader :: "string list list"
  preprocessor :: "string \<Rightarrow> string list"
  ngram :: nat
  csv_columns :: "string list option"
  vocab :: "string list"

subsection \<open>corrupted_sample\<close>

text \<open>
  The loop \<open>while random_word == sample[1]: random_word = randint(0, len(vocab) - 1)\<close>
  with \<open>hi = len(vocab) - 1\<close> and \<open>mid = sample[1]\<close>. It need not end: \<open>None\<close> is a
  run that draws forever.
\<close>

partial_function (option) redraw ::
  "int \<Rightarrow> int \<Rightarrow> int \<Rightarrow> rng \<Rightarrow> (error + int \<times> rng) option" where
  "redraw hi mid random_word s =
     (if random_word = mid then
        (case randint 0 hi s of
           Inl e \<Rightarrow> Some (Inl e)
         | Inr (w, s') \<Rightarrow> redraw hi mid w s')
      else Some (Inr (random_word, s)))"

definition corrupted_sample ::
  "input_generator \<Rightarrow> int list \<Rightarrow> rng \<Rightarrow> (error + int list \<times> rng) option" where
  "corrupted_sample self sample s =
     (case randint 0 (int (length (vocab self)) - 1) s of
        Inl e \<Rightarrow> Some (Inl e)
      | Inr (random_word, s1) \<Rightarrow>
          (case py_index sample 1 of
             Inl e \<Rightarrow> Some (Inl e)
           | Inr mid \<Rightarrow>
               (case redraw (int (length (vocab self)) - 1) mid random_word s1 of
                  None \<Rightarrow> None
                | Some (Inl e) \<Rightarrow> Some (Inl e)
                | Some (Inr (w, s2)) \<Rightarrow>
                    (case py_index sample 0 of
                       Inl e \<Rightarrow> Some (Inl e)
                     | Inr a \<Rightarrow>
                         (case py_index sample 2 of
                            Inl e \<Rightarrow> Some (Inl e)
                          | Inr c \<Rightarrow> Some (Inr ([a, w, c], s2)))))))"

subsection \<open>generate_samples\<close>

text \<open>\<open>sep.join(xs)\<close>.\<close>

fun join :: "string \<Rightarrow> string list \<Rightarrow> string" where
  "join sep [] = []"
| "join sep [x] = x"
| "join sep (x # y # ys) = x @ sep @ join sep (y # ys)"

text \<open>
  \<open>nltk.ngrams(xs, n)\<close> for \<open>n \<ge> 1\<close>: every window of \<open>n\<close> consecutive items, in
  order.
\<close>

definition ngrams :: "'a list \<Rightarrow> nat \<Rightarrow> 'a list list" where
  "ngrams xs n = map (\<lambda>i. take n (drop i xs)) [0..<Suc (length xs) - n]"

text \<open>\<open>xs[::n]\<close>: every \<open>n\<close>-th item from the first; a step of zero is a ValueError.\<close>

definition py_stride :: "'a list \<Rightarrow> nat \<Rightarrow> error + 'a list" where
  "py_stride xs n =
     (if n = 0 then Inl ValueError
      else Inr (map (\<lambda>i. xs ! (i * n)) [0..<(length xs + n - 1) div n]))"

text \<open>
  Lines 66 to 71: the list of non-overlapping ngrams of one row. With no column list
  (\<open>csv_columns\<close> is \<open>None\<close>) the call \<open>self.csv_columns.index\<close> is an
  AttributeError.
\<close>

definition current_tweet :: "input_generator \<Rightarrow> string list \<Rightarrow> error + string list" where
  "current_tweet self line =
     (case csv_columns self of
        None \<Rightarrow> Inl AttributeError
      | Some cols \<Rightarrow>
          (case list_index cols ''text'' of
             Inl e \<Rightarrow> Inl e
           | Inr i \<Rightarrow>
               (case py_index line i of
                  Inl e \<Rightarrow> Inl e
                | Inr text \<Rightarrow>
                    py_stride
                      (map (join ''_'') (ngrams (preprocessor self text) (ngram self)))
                      (ngram self))))"

text \<open>
  Lines 74 and 75. \<open>py_int\<close> is Python's \<open>int\<close> on strings, \<open>None\<close> where it raises
  ValueError.
\<close>

definition current_label ::
  "(string \<Rightarrow> int option) \<Rightarrow> input_generator \<Rightarrow> string list \<Rightarrow> error + int" where
  "current_label py_int self line =
     (case csv_columns self of
        None \<Rightarrow> Inl AttributeError
      | Some cols \<Rightarrow>
          (case list_index cols ''sentiment'' of
             Inl e \<Rightarrow> Inl e
           | Inr i \<Rightarrow>
               (case py_index line i of
                  Inl e \<Rightarrow> Inl e
                | Inr field \<Rightarrow>
                    (case py_int field of
                       None \<Rightarrow> Inl ValueError
                     | Some v \<Rightarrow> Inr (if v > 0 then 1 else - 1)))))"

text \<open>Lines 78 and 79: \<open>int(len(current_tweet) / 3)\<close> slices of three.\<close>

definition chunks :: "'a list \<Rightarrow> 'a list list" where
  "chunks tweet =
     map (\<lambda>i. py_slice tweet (i * 3) ((i + 1) * 3))
       [0..<nat \<lfloor>real (length tweet) / 3\<rfloor>]"

text \<open>
  Modelled from the spec: \<open>lookup_ids\<close> of sentiwords/embeddings/embedding.py, which
  is not among the sources. It maps each unit of a chunk to its vocabulary id; the id of
  one token in a vocabulary, with whatever is done for a token outside it, is the
  parameter \<open>word_id\<close>.
\<close>

definition lookup_ids ::
  "(string list \<Rightarrow> string \<Rightarrow> int) \<Rightarrow> string list \<Rightarrow> string list \<Rightarrow> int list" where
  "lookup_ids word_id vocabulary chunk = map (word_id vocabulary) chunk"

text \<open>
  A sample is the tuple \<open>((original, corrupted), label)\<close>. The generator is described
  by its whole run: the samples it yields, in order, and how the run ends.
\<close>

type_synonym sample = "(int list \<times> int list) \<times> int"

datatype outcome = Exhausted | Raised error | Diverged

text \<open>Lines 80 to 82, the loop over the chunks of one row.\<close>

fun emit_chunks ::
  "(string list \<Rightarrow> string \<Rightarrow> int) \<Rightarrow> input_generator \<Rightarrow> int \<Rightarrow> string list list \<Rightarrow> rng
     \<Rightarrow> sample list \<times> (outcome + rng)" where
  "emit_chunks word_id self label [] s = ([], Inr s)"
| "emit_chunks word_id self label (current_chunk # rest) s =
     (let sample = lookup_ids word_id (vocab self) current_chunk in
      case corrupted_sample self sample s of
        None \<Rightarrow> ([], Inl Diverged)
      | Some (Inl e) \<Rightarrow> ([], Inl (Raised e))
      | Some (Inr (corrupted, s')) \<Rightarrow>
          (case emit_chunks word_id self label rest s' of
             (out, r) \<Rightarrow> (((sample, corrupted), label) # out, r)))"

text \<open>Lines 64 to 82, the body of the loop over the rows.\<close>

definition process_line ::
  "(string \<Rightarrow> int option) \<Rightarrow> (string list \<Rightarrow> string \<Rightarrow> int) \<Rightarrow> input_generator
     \<Rightarrow> string list \<Rightarrow> rng \<Rightarrow> sample list \<times> (outcome + rng)" where
  "process_line py_int word_id self line s =
     (case current_tweet self line of
        Inl e \<Rightarrow> ([], Inl (Raised e))
      | Inr tweet \<Rightarrow>
          (case current_label py_int self line of
             Inl e \<Rightarrow> ([], Inl (Raised e))
           | Inr label \<Rightarrow> emit_chunks word_id self label (chunks tweet) s))"

fun generate_rows ::
  "(string \<Rightarrow> int option) \<Rightarrow> (string list \<Rightarrow> string \<Rightarrow> int) \<Rightarrow> input_generator
     \<Rightarrow> string list list \<Rightarrow> rng \<Rightarrow> sample list \<times> outcome" where
  "generate_rows py_int word_id self [] s = ([], Exhausted)"
| "generate_rows py_int word_id self (line # rest) s =
     (case process_line py_int word_id self line s of
        (out, Inl stop) \<Rightarrow> (out, stop)
      | (out, Inr s') \<Rightarrow>
          (case generate_rows py_int word_id self rest s' of
             (out', r) \<Rightarrow> (out @ out', r)))"

definition generate_samples ::
  "(string \<Rightarrow> int option) \<Rightarrow> (string list \<Rightarrow> string \<Rightarrow> int) \<Rightarrow> input_generator \<Rightarrow> rng
     \<Rightarrow> sample list \<times> outcome" where
  "generate_samples py_int word_id self s =
     generate_rows py_int word_id self (reader self) s"

subsection \<open>The constructor\<close>

text \<open>
  \<open>__init__\<close> over the rows of the opened file. With \<open>csv_columns = None\<close> line 50
  takes the first row as the column list (StopIteration on an empty file); line 53 then
  assigns the argument itself.
\<close>

definition InputGenerator ::
  "string list list \<Rightarrow> string list \<Rightarrow> (string \<Rightarrow> string list) \<Rightarrow> nat \<Rightarrow> string list option
     \<Rightarrow> error + input_generator" where
  "InputGenerator rows vocabulary pre n columns =
     (case (if columns = None
            then (case rows of
                    [] \<Rightarrow> Inl StopIteration
                  | header # rest \<Rightarrow> Inr (Some header, rest))
            else Inr (None, rows)) of
        Inl e \<Rightarrow> Inl e
      | Inr (from_header, rows') \<Rightarrow>
          Inr ((\<lparr>reader = rows', preprocessor = pre, ngram = n,
                  csv_columns = from_header, vocab = vocabulary\<rparr>)
               \<lparr>csv_columns := columns\<rparr>))"

subsection \<open>The sample stream as the spec words it\<close>

text \<open>
  The spec's partition of a unit sequence: consecutive groups of exactly three that do not
  overlap, a final incomplete group dropped.
\<close>

fun spec_trigrams :: "'a list \<Rightarrow> 'a list list" where
  "spec_trigrams (a # b # c # rest) = [a, b, c] # spec_trigrams rest"
| "spec_trigrams _ = []"

text \<open>
  A random source is \<open>unstuck\<close> for a vocabulary of \<open>V\<close> words when, from every point
  on and for every id, it eventually delivers a draw that differs from that id.
\<close>

definition unstuck :: "nat \<Rightarrow> rng \<Rightarrow> bool" where
  "unstuck V s \<longleftrightarrow> (\<forall>n m. \<exists>k. int (s !! (n + k)) mod int V \<noteq> m)"

text \<open>The field of a row under a column name, as lines 70 and 75 read it.\<close>

definition field :: "string list \<Rightarrow> string \<Rightarrow> string list \<Rightarrow> error + string" where
  "field cols name line =
     (case list_index cols name of Inl e \<Rightarrow> Inl e | Inr i \<Rightarrow> py_index line i)"

text \<open>
  A row is well formed when its text and sentiment fields exist and the sentiment field
  reads as an integer; \<open>tokens\<close> is the tokenized text of a row.
\<close>

definition well_formed :: "(string \<Rightarrow> int option) \<Rightarrow> string list \<Rightarrow> string list \<Rightarrow> bool" where
  "well_formed py_int cols line \<longleftrightarrow>
     (case field cols ''text'' line of
        Inl e \<Rightarrow> False
      | Inr text \<Rightarrow>
          (case field cols ''sentiment'' line of
             Inl e \<Rightarrow> False
           | Inr f \<Rightarrow> py_int f \<noteq> None))"

definition tokens :: "input_generator \<Rightarrow> string list \<Rightarrow> string list \<Rightarrow> string list" where
  "tokens self cols line =
     (case field cols ''text'' line of Inl e \<Rightarrow> [] | Inr text \<Rightarrow> preprocessor self text)"

subsection \<open>A concrete input\<close>

text \<open>
  Stand-ins for the collaborators, for running the definitions: a tokenizer that splits at
  blanks, a reader of decimal numerals for \<open>int\<close>, and the position in the vocabulary as
  the id of a word.
\<close>

fun blank_split :: "string \<Rightarrow> string \<Rightarrow> string list" where
  "blank_split cur [] = (if cur = [] then [] else [cur])"
| "blank_split cur (c # cs) =
     (if c = CHR '' '' then (if cur = [] then blank_split [] cs else cur # blank_split [] cs)
      else blank_split (cur @ [c]) cs)"

fun decimal_digits :: "nat \<Rightarrow> string \<Rightarrow> nat option" where
  "decimal_digits acc [] = Some acc"
| "decimal_digits acc (c # cs) =
     (if c \<in> set ''0123456789''
      then decimal_digits (10 * acc + (of_char c - 48)) cs else None)"

definition decimal :: "string \<Rightarrow> int option" where
  "decimal str =
     (case str of
        [] \<Rightarrow> None
      | c # cs \<Rightarrow>
          (if c = CHR ''-''
           then (if cs = [] then None else map_option (\<lambda>n. - int n) (decimal_digits 0 cs))
           else map_option int (decimal_digits 0 str)))"

definition position :: "string list \<Rightarrow> string \<Rightarrow> int" where
  "position vocabulary w =
     (case list_index vocabulary w of Inl e \<Rightarrow> - 1 | Inr i \<Rightarrow> int i)"

definition tweet_columns :: "string list" where
  "tweet_columns = [''sentiment'', ''id'', ''date'', ''status'', ''user'', ''text'']"

definition good_bad :: input_generator where
  "good_bad =
     \<lparr>reader = [[''1'', ''id1'', ''date'', ''status'', ''user'', ''good good good bad bad bad'']],
      preprocessor = blank_split [], ngram = 1, csv_columns = Some tweet_columns,
      vocab = [''good'', ''bad'']\<rparr>"

definition one_word :: input_generator where
  "one_word = good_bad\<lparr>vocab := [''good'']\<rparr>"

definition counting :: rng where
  "counting = siterate Suc 0"

definition neutral_row :: "string list" where
  "neutral_row = [''0'', ''id2'', ''date'', ''status'', ''user'', ''bad bad bad'']"


section \<open>model_fn\<close>

text \<open>
  Tensors of rank one and two are lists and lists of rows. The float32 values of the
  network are taken as real numbers: rounding, overflow and the infinities are outside
  the model. The one value of the source that has no real counterpart is the mean of an
  empty tensor, which is \<open>NaN\<close>.
\<close>

datatype scalar = Num real | NaN

datatype mode_key = TRAIN | EVAL | PREDICT

record features =
  original :: "int list list"
  corrupted :: "int list list"

record estimator_spec =
  mode :: mode_key
  predictions :: "real list list option"
  loss :: "scalar option"
  train_op :: "real option"

subsection \<open>Variables\<close>

text \<open>
  The variables of the graph under construction, by name, and the number of variables
  created so far. A bias of shape \<open>[units]\<close> is kept as a single row.
\<close>

record graph =
  variables :: "string \<rightharpoonup> real list list"
  created :: nat

datatype initializer = Constant "real list list" | Glorot_uniform | Zeros

text \<open>
  The initial values belong to the framework: \<open>initial init k i j\<close> is the entry
  \<open>(i, j)\<close> that initializer \<open>init\<close> gives to the \<open>k\<close>-th variable created, so two
  creations may differ in their values.
\<close>

type_synonym initial = "initializer \<Rightarrow> nat \<Rightarrow> nat \<Rightarrow> nat \<Rightarrow> real"

definition create :: "(nat \<Rightarrow> nat \<Rightarrow> real) \<Rightarrow> nat \<Rightarrow> nat \<Rightarrow> real list list" where
  "create f r c = map (\<lambda>i. map (f i) [0..<c]) [0..<r]"

definition dims :: "real list list \<Rightarrow> nat \<Rightarrow> nat \<Rightarrow> bool" where
  "dims m r c \<longleftrightarrow> length m = r \<and> list_all (\<lambda>row. length row = c) m"

text \<open>
  \<open>tf.get_variable\<close> under \<open>reuse=tf.AUTO_REUSE\<close>: a variable of that name is
  returned as it is when it exists (ValueError when its shape is another one) and is
  created otherwise.
\<close>

definition get_variable ::
  "initial \<Rightarrow> graph \<Rightarrow> string \<Rightarrow> nat \<times> nat \<Rightarrow> initializer
     \<Rightarrow> error + real list list \<times> graph" where
  "get_variable initial g name shape init =
     (case variables g name of
        Some v \<Rightarrow> (if dims v (fst shape) (snd shape) then Inr (v, g) else Inl ValueError)
      | None \<Rightarrow>
          (let v = create (initial init (created g)) (fst shape) (snd shape)
           in Inr (v, g\<lparr>variables := (variables g)(name \<mapsto> v),
                         created := Suc (created g)\<rparr>)))"

subsection \<open>Layers\<close>

text \<open>
  \<open>tf.nn.embedding_lookup\<close>: the rows of \<open>params\<close> at the given ids; an id outside
  \<open>[0, len(params))\<close> is an InvalidArgumentError.
\<close>

definition embedding_lookup ::
  "real list list \<Rightarrow> int list list \<Rightarrow> error + real list list list" where
  "embedding_lookup params ids =
     (if list_all (list_all (\<lambda>i. 0 \<le> i \<and> i < int (length params))) ids
      then Inr (map (map (\<lambda>i. params ! nat i)) ids)
      else Inl InvalidArgumentError)"

definition flatten :: "real list list list \<Rightarrow> real list list" where
  "flatten embeds = map concat embeds"

text \<open>
  The product of a batch of rows of length \<open>n\<close> with a kernel of shape
  \<open>[n, units]\<close>; a row of another length is an InvalidArgumentError.
\<close>

definition matmul ::
  "real list list \<Rightarrow> real list list \<Rightarrow> nat \<Rightarrow> nat \<Rightarrow> error + real list list" where
  "matmul x kern n units =
     (if list_all (\<lambda>row. length row = n) x
      then Inr (map (\<lambda>row. map (\<lambda>j. \<Sum>i \<leftarrow> [0..<n]. row ! i * kern ! i ! j) [0..<units]) x)
      else Inl InvalidArgumentError)"

text \<open>
  \<open>tf.layers.dense(inputs, units, activation, name, reuse=tf.AUTO_REUSE)\<close> on inputs
  whose last dimension is \<open>n\<close>: kernel and bias are obtained by name, then
  \<open>activation(inputs \<cdot> kernel + bias)\<close>.
\<close>

definition dense ::
  "initial \<Rightarrow> graph \<Rightarrow> string \<Rightarrow> real list list \<Rightarrow> nat \<Rightarrow> nat \<Rightarrow> (real \<Rightarrow> real)
     \<Rightarrow> error + real list list \<times> graph" where
  "dense initial g name inputs n units activation =
     (case get_variable initial g (name @ ''/kernel'') (n, units) Glorot_uniform of
        Inl e \<Rightarrow> Inl e
      | Inr (kern, g1) \<Rightarrow>
          (case get_variable initial g1 (name @ ''/bias'') (1, units) Zeros of
             Inl e \<Rightarrow> Inl e
           | Inr (bias, g2) \<Rightarrow>
               (case matmul inputs kern n units of
                  Inl e \<Rightarrow> Inl e
                | Inr y \<Rightarrow>
                    Inr (map (\<lambda>row. map activation (map2 (+) row (bias ! 0))) y, g2))))"

text \<open>\<open>tf.clip_by_value(x, clip_value_min, clip_value_max)\<close> on one value.\<close>

definition clip_by_value :: "real \<Rightarrow> real \<Rightarrow> real \<Rightarrow> real" where
  "clip_by_value x clip_value_min clip_value_max = max clip_value_min (min x clip_value_max)"

subsection \<open>shared_network\<close>

text \<open>
  Lines 185 to 211, with the names as they resolve inside the variable scope
  \<open>shared_network\<close>. The feature tensors have the static shape \<open>[batch, 3]\<close> that
  \<open>input_fn\<close> declares at line 140, so the flattened embeddings have
  \<open>3 * embedding_size\<close> columns.
\<close>

definition shared_network ::
  "initial \<Rightarrow> nat \<Rightarrow> nat \<Rightarrow> nat \<Rightarrow> initializer \<Rightarrow> graph \<Rightarrow> int list list
     \<Rightarrow> error + real list list \<times> graph" where
  "shared_network initial vocabulary_size embedding_size hidden_units init g input =
     (case get_variable initial g ''shared_network/word_embeddings''
             (vocabulary_size, embedding_size) init of
        Inl e \<Rightarrow> Inl e
      | Inr (word_embeddings, g1) \<Rightarrow>
          (case embedding_lookup word_embeddings input of
             Inl e \<Rightarrow> Inl e
           | Inr embeds \<Rightarrow>
               (case dense initial g1 ''shared_network/hidden'' (flatten embeds)
                       (3 * embedding_size) hidden_units (\<lambda>x. clip_by_value x (- 1) 1) of
                  Inl e \<Rightarrow> Inl e
                | Inr (hidden, g2) \<Rightarrow>
                    dense initial g2 ''shared_network/output'' hidden hidden_units 2
                      (\<lambda>x. x))))"

subsection \<open>The two branches and the loss\<close>

text \<open>\<open>t[:, j]\<close> on a tensor whose rows are longer than \<open>j\<close>.\<close>

definition column :: "nat \<Rightarrow> 'a list list \<Rightarrow> 'a list" where
  "column j t = map (\<lambda>row. row ! j) t"

record scores =
  original_output :: "real list list"
  original_syntactic_score :: "real list"
  original_sentiment_score :: "real list"
  corrupted_output :: "real list list"
  corrupted_syntactic_score :: "real list"
  corrupted_sentiment_score :: "real list"

text \<open>Lines 213 to 222: both feature tensors go through \<open>shared_network\<close>.\<close>

definition branches ::
  "initial \<Rightarrow> nat \<Rightarrow> nat \<Rightarrow> nat \<Rightarrow> initializer \<Rightarrow> graph \<Rightarrow> features
     \<Rightarrow> error + scores \<times> graph" where
  "branches initial vocabulary_size embedding_size hidden_units init g feats =
     (case shared_network initial vocabulary_size embedding_size hidden_units init g
             (original feats) of
        Inl e \<Rightarrow> Inl e
      | Inr (out_o, g1) \<Rightarrow>
          (case shared_network initial vocabulary_size embedding_size hidden_units init g1
                  (corrupted feats) of
             Inl e \<Rightarrow> Inl e
           | Inr (out_c, g2) \<Rightarrow>
               Inr (\<lparr>original_output = out_o,
                     original_syntactic_score = column 0 out_o,
                     original_sentiment_score = column 1 out_o,
                     corrupted_output = out_c,
                     corrupted_syntactic_score = column 0 out_c,
                     corrupted_sentiment_score = column 1 out_c\<rparr>, g2)))"

text \<open>
  An operation on two tensors of rank one: element by element on equal lengths, a tensor
  of one element is broadcast, other lengths are an InvalidArgumentError.
\<close>

definition elementwise ::
  "(real \<Rightarrow> real \<Rightarrow> real) \<Rightarrow> real list \<Rightarrow> real list \<Rightarrow> error + real list" where
  "elementwise f xs ys =
     (if length xs = length ys then Inr (map2 f xs ys)
      else if length xs = 1 then Inr (map (f (xs ! 0)) ys)
      else if length ys = 1 then Inr (map (\<lambda>x. f x (ys ! 0)) xs)
      else Inl InvalidArgumentError)"

definition reduce_mean :: "real list \<Rightarrow> scalar" where
  "reduce_mean xs = (if xs = [] then NaN else Num (sum_list xs / real (length xs)))"

definition scale :: "real \<Rightarrow> scalar \<Rightarrow> scalar" where
  "scale a x = (case x of NaN \<Rightarrow> NaN | Num v \<Rightarrow> Num (a * v))"

definition add :: "scalar \<Rightarrow> scalar \<Rightarrow> scalar" where
  "add x y = (case x of NaN \<Rightarrow> NaN | Num v \<Rightarrow> (case y of NaN \<Rightarrow> NaN | Num w \<Rightarrow> Num (v + w)))"

text \<open>Lines 226 to 231.\<close>

definition sentiment_loss ::
  "int list \<Rightarrow> real list \<Rightarrow> real list \<Rightarrow> error + scalar" where
  "sentiment_loss labels original_sentiment corrupted_sentiment =
     (case elementwise (*) (map real_of_int labels) original_sentiment of
        Inl e \<Rightarrow> Inl e
      | Inr lo \<Rightarrow>
          (case elementwise (*) (map real_of_int labels) corrupted_sentiment of
             Inl e \<Rightarrow> Inl e
           | Inr lc \<Rightarrow>
               (case elementwise (+) (map (\<lambda>x. 1 - x) lo) lc of
                  Inl e \<Rightarrow> Inl e
                | Inr d \<Rightarrow> Inr (reduce_mean (map (max 0) d)))))"

text \<open>Lines 233 to 237.\<close>

definition syntactic_loss :: "real list \<Rightarrow> real list \<Rightarrow> error + scalar" where
  "syntactic_loss original_syntactic corrupted_syntactic =
     (case elementwise (+) (map (\<lambda>x. 1 - x) original_syntactic) corrupted_syntactic of
        Inl e \<Rightarrow> Inl e
      | Inr d \<Rightarrow> Inr (reduce_mean (map (max 0) d)))"

text \<open>Lines 225 to 241, the loss of a batch. Without labels the cast is a ValueError.\<close>

definition combined_loss :: "real \<Rightarrow> int list option \<Rightarrow> scores \<Rightarrow> error + scalar" where
  "combined_loss alpha labels sc =
     (case labels of
        None \<Rightarrow> Inl ValueError
      | Some ls \<Rightarrow>
          (case sentiment_loss ls (original_sentiment_score sc)
                  (corrupted_sentiment_score sc) of
             Inl e \<Rightarrow> Inl e
           | Inr sentiment \<Rightarrow>
               (case syntactic_loss (original_syntactic_score sc)
                       (corrupted_syntactic_score sc) of
                  Inl e \<Rightarrow> Inl e
                | Inr syntactic \<Rightarrow>
                    Inr (add (scale alpha syntactic) (scale (1 - alpha) sentiment)))))"

subsection \<open>model_fn\<close>

text \<open>
  The model function on a graph under construction. \<open>train_op\<close> holds the learning rate
  of the Adagrad step that minimises the loss.
\<close>

definition model_fn ::
  "initial \<Rightarrow> mode_key \<Rightarrow> features \<Rightarrow> int list option \<Rightarrow> nat \<Rightarrow> real \<Rightarrow> nat \<Rightarrow> real \<Rightarrow> nat
     \<Rightarrow> real list list option \<Rightarrow> graph \<Rightarrow> error + estimator_spec \<times> graph" where
  "model_fn initial md feats labels vocabulary_size alpha hidden_units learning_rate
     embedding_size initial_embedding g =
     (let init = (case initial_embedding of
                    Some m \<Rightarrow> Constant m
                  | None \<Rightarrow> Glorot_uniform)
      in case branches initial vocabulary_size embedding_size hidden_units init g feats of
           Inl e \<Rightarrow> Inl e
         | Inr (sc, g') \<Rightarrow>
             (case (if md = TRAIN \<or> md = EVAL
                    then (case combined_loss alpha labels sc of
                            Inl e \<Rightarrow> Inl e
                          | Inr l \<Rightarrow> Inr (Some l))
                    else Inr None) of
                Inl e \<Rightarrow> Inl e
              | Inr l \<Rightarrow>
                  Inr (\<lparr>mode = md,
                        predictions = (if md = PREDICT then Some (original_output sc)
                                       else None),
                        loss = l,
                        train_op = (if md = TRAIN then Some learning_rate else None)\<rparr>,
                       g')))"

subsection \<open>The scorer and the loss as the spec words them\<close>

text \<open>
  The parameters \<open>\<Theta>\<close> of the scorer: the embedding matrix, the hidden weights and the
  output weights.
\<close>

record theta =
  embedding_matrix :: "real list list"
  hidden_kernel :: "real list list"
  hidden_bias :: "real list"
  output_kernel :: "real list list"
  output_bias :: "real list"

text \<open>One affine output: the dot product of a row with column \<open>j\<close> of a kernel, plus a bias.\<close>

definition affine :: "real list list \<Rightarrow> real list \<Rightarrow> real list \<Rightarrow> nat \<Rightarrow> real" where
  "affine kern bias row j = (\<Sum>i \<leftarrow> [0..<length row]. row ! i * kern ! i ! j) + bias ! j"

text \<open>
  The spec's scorer on one trigram: the embedding rows of the ids, concatenated; an affine
  transform to the hidden units, each clipped to \<open>[-1, 1]\<close>; a second affine transform to
  two outputs.
\<close>

definition spec_hidden :: "theta \<Rightarrow> int list \<Rightarrow> real list" where
  "spec_hidden th ids =
     (let x = concat (map (\<lambda>i. embedding_matrix th ! nat i) ids)
      in map (\<lambda>j. max (- 1) (min 1 (affine (hidden_kernel th) (hidden_bias th) x j)))
           [0..<length (hidden_bias th)])"

definition spec_score :: "theta \<Rightarrow> int list \<Rightarrow> real list" where
  "spec_score th ids =
     map (affine (output_kernel th) (output_bias th) (spec_hidden th ids)) [0..<2]"

text \<open>The parameter values that a graph holds under the five names of the scorer.\<close>

definition parameters :: "graph \<Rightarrow> theta option" where
  "parameters g =
     (case (variables g ''shared_network/word_embeddings'',
            variables g ''shared_network/hidden/kernel'',
            variables g ''shared_network/hidden/bias'',
            variables g ''shared_network/output/kernel'',
            variables g ''shared_network/output/bias'') of
        (Some e, Some hk, Some hb, Some ok, Some ob) \<Rightarrow>
          Some \<lparr>embedding_matrix = e, hidden_kernel = hk, hidden_bias = hb ! 0,
                output_kernel = ok, output_bias = ob ! 0\<rparr>
      | _ \<Rightarrow> None)"

text \<open>
  The spec's loss on a batch of samples \<open>(orig_syn, orig_sent, corr_syn, corr_sent, label)\<close>.
\<close>

type_synonym scored = "real \<times> real \<times> real \<times> real \<times> int"

definition spec_syntactic_loss :: "scored \<Rightarrow> real" where
  "spec_syntactic_loss x =
     (case x of (orig_syn, orig_sent, corr_syn, corr_sent, label) \<Rightarrow>
        max 0 (1 - orig_syn + corr_syn))"

definition spec_sentiment_loss :: "scored \<Rightarrow> real" where
  "spec_sentiment_loss x =
     (case x of (orig_syn, orig_sent, corr_syn, corr_sent, label) \<Rightarrow>
        max 0 (1 - real_of_int label * orig_sent + real_of_int label * corr_sent))"

definition spec_mean :: "(scored \<Rightarrow> real) \<Rightarrow> scored list \<Rightarrow> real" where
  "spec_mean f batch = (\<Sum>x \<leftarrow> batch. f x) / real (length batch)"

definition spec_batch_loss :: "real \<Rightarrow> scored list \<Rightarrow> real" where
  "spec_batch_loss alpha batch =
     alpha * spec_mean spec_syntactic_loss batch
       + (1 - alpha) * spec_mean spec_sentiment_loss batch"

text \<open>The scores of a batch, sample by sample.\<close>

definition scores_of :: "scored list \<Rightarrow> scores" where
  "scores_of batch =
     \<lparr>original_output = map (\<lambda>(a, b, c, d, l). [a, b]) batch,
      original_syntactic_score = map (\<lambda>(a, b, c, d, l). a) batch,
      original_sentiment_score = map (\<lambda>(a, b, c, d, l). b) batch,
      corrupted_output = map (\<lambda>(a, b, c, d, l). [c, d]) batch,
      corrupted_syntactic_score = map (\<lambda>(a, b, c, d, l). c) batch,
      corrupted_sentiment_score = map (\<lambda>(a, b, c, d, l). d) batch\<rparr>"

definition labels_of :: "scored list \<Rightarrow> int list" where
  "labels_of batch = map (\<lambda>(a, b, c, d, l). l) batch"


subsection \<open>Graphs and inputs on which the scorer can be built\<close>

text \<open>
  A graph admits the scorer when none of the five variable names is taken by a variable of
  another shape; a batch is well shaped when its items have three ids, all of them ids of
  the vocabulary.
\<close>

definition admit :: "graph \<Rightarrow> string \<Rightarrow> nat \<Rightarrow> nat \<Rightarrow> bool" where
  "admit g name r c = (case variables g name of None \<Rightarrow> True | Some v \<Rightarrow> dims v r c)"

definition admits :: "graph \<Rightarrow> nat \<Rightarrow> nat \<Rightarrow> nat \<Rightarrow> bool" where
  "admits g V E H \<longleftrightarrow>
     admit g ''shared_network/word_embeddings'' V E
     \<and> admit g ''shared_network/hidden/kernel'' (3 * E) H
     \<and> admit g ''shared_network/hidden/bias'' 1 H
     \<and> admit g ''shared_network/output/kernel'' H 2
     \<and> admit g ''shared_network/output/bias'' 1 2"

definition well_shaped :: "nat \<Rightarrow> int list list \<Rightarrow> bool" where
  "well_shaped V x \<longleftrightarrow>
     list_all (\<lambda>ids. length ids = 3 \<and> list_all (\<lambda>i. 0 \<le> i \<and> i < int V) ids) x"

text \<open>
  A concrete setting: an initializer, the empty graph, and the batch of the two samples
  that the rows of \<open>good_bad\<close> give.
\<close>

definition ramp :: initial where
  "ramp init k i j =
     (case init of
        Constant m \<Rightarrow> m ! i ! j
      | Glorot_uniform \<Rightarrow> 1 / real (k + i + j + 1)
      | Zeros \<Rightarrow> 0)"

definition fresh :: graph where
  "fresh = \<lparr>variables = Map.empty, created = 0\<rparr>"

definition pairs :: features where
  "pairs = \<lparr>original = [[0, 0, 0], [1, 1, 1]], corrupted = [[0, 1, 0], [1, 0, 1]]\<rparr>"


section \<open>main\<close>

text \<open>
  The parsed command line: \<open>args_x\<close> is \<open>args.x\<close>. An option that was not given
  is \<open>None\<close>.
\<close>

record args =
  args_data :: string
  args_vocabulary :: "string option"
  args_batch_size :: int
  args_epochs :: int
  args_model_dir :: "string option"
  args_alpha :: real
  args_lr :: real
  args_hidden :: nat
  args_embedding_size :: nat
  args_keep_checkpoints :: int
  args_initial_embeddings :: "string option"
  args_export_path :: "string option"

text \<open>A numpy array of numbers: its shape tuple and, for two dimensions, its rows.\<close>

record ndarray =
  nd_shape :: "nat list"
  nd_rows :: "real list list"

text \<open>
  The \<open>RunConfig\<close> of line 351. Its session configuration is the constant of lines 349
  and 350 (GPU memory growth allowed).
\<close>

record run_config =
  config_model_dir :: "string option"
  keep_checkpoint_max :: int

text \<open>
  What \<open>main\<close> gets from the modules it imports, each of which can fail: the vocabulary
  that \<open>Preprocessor.preprocess_csv\<close> and \<open>Embedding._build_vocabulary\<close> build from the
  data file, the vocabulary and matrix that \<open>Embedding.load\<close> reads from a path, the
  vocabulary that \<open>load_vocab\<close> reads from a path, the constructor
  \<open>tf.estimator.RunConfig\<close> on a model directory and a number of checkpoints to keep,
  and the constructor \<open>tf.estimator.Estimator\<close> on a model directory and a
  configuration, which gives the \<open>model_dir\<close> of the new estimator.
\<close>

record collaborators =
  build_vocabulary :: "string \<Rightarrow> error + string list"
  embedding_load :: "string \<Rightarrow> error + string list \<times> ndarray"
  load_vocab :: "string \<Rightarrow> error + string list"
  new_run_config :: "string option \<Rightarrow> int \<Rightarrow> error + run_config"
  new_estimator :: "string option \<Rightarrow> run_config \<Rightarrow> error + string"

text \<open>
  The call of \<open>model.train\<close> at line 370: the configuration and the directory of the
  estimator, the arguments that \<open>model_function\<close> passes to \<open>model_fn\<close>, and the
  arguments of \<open>input_fn\<close>.
\<close>

record launch =
  estimator_config :: run_config
  estimator_model_dir :: string
  model_vocabulary_size :: nat
  model_alpha :: real
  model_hidden_units :: nat
  model_learning_rate :: real
  model_embedding_size :: nat
  model_initial_embedding :: "real list list option"
  input_csv :: string
  input_vocabulary :: "string list"
  input_num_epochs :: int
  input_batch_size :: int

text \<open>
  Lines 343 to 370, from the vocabulary and the optional initial matrix to the call of
  \<open>model.train\<close>: the embedding size (\<open>shape[1]\<close> of the matrix, an IndexError when
  the shape has no second entry), the run configuration, the estimator, the launch.
\<close>

definition launch_training ::
  "collaborators \<Rightarrow> args \<Rightarrow> string list \<Rightarrow> ndarray option \<Rightarrow> error + launch" where
  "launch_training c a words initial_matrix =
     (case (case initial_matrix of
              Some m \<Rightarrow> py_index (nd_shape m) 1
            | None \<Rightarrow> Inr (args_embedding_size a)) of
        Inl e \<Rightarrow> Inl e
      | Inr embedding_size \<Rightarrow>
          (case new_run_config c (args_model_dir a) (args_keep_checkpoints a) of
             Inl e \<Rightarrow> Inl e
           | Inr config \<Rightarrow>
               (case new_estimator c (args_model_dir a) config of
                  Inl e \<Rightarrow> Inl e
                | Inr model_dir \<Rightarrow>
                    Inr \<lparr>estimator_config = config,
                         estimator_model_dir = model_dir,
                         model_vocabulary_size = length words,
                         model_alpha = args_alpha a,
                         model_hidden_units = args_hidden a,
                         model_learning_rate = args_lr a,
                         model_embedding_size = embedding_size,
                         model_initial_embedding = map_option nd_rows initial_matrix,
                         input_csv = args_data a,
                         input_vocabulary = words,
                         input_num_epochs = args_epochs a,
                         input_batch_size = args_batch_size a\<rparr>)))"

text \<open>
  Lines 321 to 370: \<open>main\<close> from the parsed arguments to the call of \<open>model.train\<close>.
  The result holds the lines printed and either the exception that ended the run or the
  launch of training; training itself and the export of lines 372 to 385, which come
  after the launch, are not part of it. The three cases are the branches of lines 322,
  331 and 338, in that order; each prints its line before it reads anything.
\<close>

definition main :: "collaborators \<Rightarrow> args \<Rightarrow> string list \<times> (error + launch)" where
  "main c a =
     (case (args_vocabulary a, args_initial_embeddings a) of
        (None, None) \<Rightarrow>
          ([''Building vocabulary from input data...''],
           (case build_vocabulary c (args_data a) of
              Inl e \<Rightarrow> Inl e
            | Inr words \<Rightarrow> launch_training c a words None))
      | (v, Some path) \<Rightarrow>
          ([''Loading embeddings from file...''],
           (case embedding_load c path of
              Inl e \<Rightarrow> Inl e
            | Inr (words, matrix) \<Rightarrow> launch_training c a words (Some matrix)))
      | (Some path, None) \<Rightarrow>
          ([''Loading vocabulary...''],
           (case load_vocab c path of
              Inl e \<Rightarrow> Inl e
            | Inr words \<Rightarrow> launch_training c a words None)))"

text \<open>
  A concrete command line that gives both a vocabulary and initial embeddings, with
  collaborators for which only the embeddings file can be read and the framework's
  constructors accept their arguments.
\<close>

definition both_given :: args where
  "both_given =
     \<lparr>args_data = ''tweets.csv'', args_vocabulary = Some ''vocab.txt'', args_batch_size = 32,
      args_epochs = 10, args_model_dir = Some ''model'', args_alpha = 1 / 2, args_lr = 1 / 10,
      args_hidden = 20, args_embedding_size = 25, args_keep_checkpoints = 5,
      args_initial_embeddings = Some ''embeddings.csv'', args_export_path = None\<rparr>"

fun accept_config :: "string option \<Rightarrow> int \<Rightarrow> error + run_config" where
  "accept_config dir keep = Inr \<lparr>config_model_dir = dir, keep_checkpoint_max = keep\<rparr>"

fun accept_estimator :: "string option \<Rightarrow> run_config \<Rightarrow> error + string" where
  "accept_estimator None config = Inr ''tmp''"
| "accept_estimator (Some dir) config = Inr dir"

fun unreadable :: "string \<Rightarrow> error + string list" where
  "unreadable path = Inl ValueError"

fun embeddings_file :: "string \<Rightarrow> error + string list \<times> ndarray" where
  "embeddings_file path =
     (if path = ''embeddings.csv''
      then Inr ([''good'', ''bad''], \<lparr>nd_shape = [2, 1], nd_rows = [[0], [1]]\<rparr>)
      else Inl ValueError)"

definition embeddings_only :: collaborators where
  "embeddings_only =
     \<lparr>build_vocabulary = unreadable, embedding_load = embeddings_file,
      load_vocab = unreadable, new_run_config = accept_config,
      new_estimator = accept_estimator\<rparr>"


section \<open>The negative sampler\<close>

lemma mod_range: "0 \<le> hi \<Longrightarrow> 0 \<le> int n mod (hi + 1) \<and> int n mod (hi + 1) \<le> hi"
  using pos_mod_bound[of "hi + 1" "int n"] pos_mod_sign[of "hi + 1" "int n"] by linarith

lemma redraw_returns:
  assumes "0 \<le> hi" and "int (s !! k) mod (hi + 1) \<noteq> mid"
  shows "\<exists>w n. redraw hi mid w0 s = Some (Inr (w, sdrop n s)) \<and> w \<noteq> mid
           \<and> (w = w0 \<or> (0 \<le> w \<and> w \<le> hi))"
  using assms(2)
proof (induction k arbitrary: s w0)
  case 0
  show ?case
  proof (cases "w0 = mid")
    case False
    then have "redraw hi mid w0 s = Some (Inr (w0, sdrop 0 s))"
      by (subst redraw.simps) simp
    with False show ?thesis by blast
  next
    case True
    let ?w = "int (shd s) mod (hi + 1)"
    from 0 have ne: "?w \<noteq> mid" by simp
    have "redraw hi mid w0 s = redraw hi mid ?w (stl s)"
      using True assms(1) by (subst redraw.simps) (simp add: randint_def)
    also have "\<dots> = Some (Inr (?w, sdrop 1 s))"
      using ne by (subst redraw.simps) simp
    finally show ?thesis using ne mod_range[OF assms(1), of "shd s"]
      by (intro exI[of _ ?w] exI[of _ 1]) simp
  qed
next
  case (Suc k)
  show ?case
  proof (cases "w0 = mid")
    case False
    then have "redraw hi mid w0 s = Some (Inr (w0, sdrop 0 s))"
      by (subst redraw.simps) simp
    with False show ?thesis by blast
  next
    case True
    let ?w = "int (shd s) mod (hi + 1)"
    have step: "redraw hi mid w0 s = redraw hi mid ?w (stl s)"
      using True assms(1) by (subst redraw.simps) (simp add: randint_def)
    from Suc.prems have "int (stl s !! k) mod (hi + 1) \<noteq> mid" by simp
    from Suc.IH[OF this, of ?w] obtain w n where
      r: "redraw hi mid ?w (stl s) = Some (Inr (w, sdrop n (stl s)))" and
      w: "w \<noteq> mid" "w = ?w \<or> (0 \<le> w \<and> w \<le> hi)" by blast
    have "0 \<le> w \<and> w \<le> hi" using w(2) mod_range[OF assms(1), of "shd s"] by auto
    with r w(1) step show ?thesis
      by (intro exI[of _ w] exI[of _ "Suc n"]) simp
  qed
qed

lemma redraw_stuck_aux:
  assumes "redraw hi mid w s = Some y"
  shows "\<not> (0 \<le> hi \<and> w = mid \<and> (\<forall>k. int (s !! k) mod (hi + 1) = mid))"
proof (rule redraw.raw_induct
    [where P = "\<lambda>hi mid w s y. \<not> (0 \<le> hi \<and> w = mid \<and> (\<forall>k. int (s !! k) mod (hi + 1) = mid))",
      OF _ assms], goal_cases)
  case (1 f hi mid w s y)
  show ?case
  proof
    assume a: "0 \<le> hi \<and> w = mid \<and> (\<forall>k. int (s !! k) mod (hi + 1) = mid)"
    then have h0: "int (s !! 0) mod (hi + 1) = mid"
      and hS: "\<forall>k. int (s !! Suc k) mod (hi + 1) = mid" by blast+
    from 1(2) a h0 have "f hi mid mid (stl s) = Some y"
      by (simp add: randint_def)
    from 1(1)[OF this] a hS show False by simp
  qed
qed

lemma redraw_stuck:
  assumes "0 \<le> hi" "\<forall>k. int (s !! k) mod (hi + 1) = mid"
  shows "redraw hi mid mid s = None"
proof (cases "redraw hi mid mid s")
  case (Some y)
  from redraw_stuck_aux[OF this] assms show ?thesis by blast
qed simp

lemma redraw_result:
  assumes "redraw hi mid w0 s = Some r"
  shows "0 \<le> hi \<longrightarrow> (\<exists>w s'. r = Inr (w, s') \<and> w \<noteq> mid \<and> (w = w0 \<or> (0 \<le> w \<and> w \<le> hi)))"
proof (rule redraw.raw_induct
    [where P = "\<lambda>hi mid w0 s r. 0 \<le> hi \<longrightarrow>
        (\<exists>w s'. r = Inr (w, s') \<and> w \<noteq> mid \<and> (w = w0 \<or> (0 \<le> w \<and> w \<le> hi)))",
      OF _ assms], goal_cases)
  case (1 f hi mid w0 s r)
  show ?case
  proof
    assume hi: "0 \<le> hi"
    show "\<exists>w s'. r = Inr (w, s') \<and> w \<noteq> mid \<and> (w = w0 \<or> (0 \<le> w \<and> w \<le> hi))"
    proof (cases "w0 = mid")
      case False
      with 1(2) show ?thesis by auto
    next
      case True
      let ?w = "int (shd s) mod (hi + 1)"
      from 1(2) True hi have "f hi mid ?w (stl s) = Some r"
        by (simp add: randint_def)
      from 1(1)[OF this] hi mod_range[OF hi, of "shd s"] show ?thesis by auto
    qed
  qed
qed

lemma corrupted_sample_result:
  assumes "length T = 3" and "0 < length (vocab self)"
    and "corrupted_sample self T s = Some r"
  shows "\<exists>w s'. r = Inr ([T ! 0, w, T ! 2], s') \<and> 0 \<le> w \<and> w < int (length (vocab self))
           \<and> w \<noteq> T ! 1"
proof -
  let ?hi = "int (length (vocab self)) - 1"
  let ?w0 = "int (shd s) mod (?hi + 1)"
  have hi: "0 \<le> ?hi" using assms(2) by simp
  from assms(1,3) hi obtain q where q: "redraw ?hi (T ! 1) ?w0 (stl s) = Some q"
    by (auto simp: corrupted_sample_def randint_def py_index_def split: option.splits)
  from redraw_result[OF q] hi mod_range[OF hi, of "shd s"] obtain w s' where
    w: "q = Inr (w, s')" "w \<noteq> T ! 1" "0 \<le> w" "w \<le> ?hi" by auto
  from assms(1,3) hi q w(1) have "r = Inr ([T ! 0, w, T ! 2], s')"
    by (simp add: corrupted_sample_def randint_def py_index_def)
  with w show ?thesis by auto
qed

lemma corrupted_sample_returns:
  assumes "length T = 3" and "0 < length (vocab self)"
    and "int (s !! k) mod int (length (vocab self)) \<noteq> T ! 1"
  shows "\<exists>w n. corrupted_sample self T s = Some (Inr ([T ! 0, w, T ! 2], sdrop n s))
           \<and> 0 \<le> w \<and> w < int (length (vocab self)) \<and> w \<noteq> T ! 1"
proof -
  let ?hi = "int (length (vocab self)) - 1"
  let ?w0 = "int (shd s) mod (?hi + 1)"
  have hi: "0 \<le> ?hi" using assms(2) by simp
  have "\<exists>w n. redraw ?hi (T ! 1) ?w0 (stl s) = Some (Inr (w, sdrop n (stl s))) \<and> w \<noteq> T ! 1
           \<and> (w = ?w0 \<or> (0 \<le> w \<and> w \<le> ?hi))"
  proof (cases k)
    case 0
    with assms(3) have "?w0 \<noteq> T ! 1" by simp
    then have "redraw ?hi (T ! 1) ?w0 (stl s) = Some (Inr (?w0, sdrop 0 (stl s)))"
      by (subst redraw.simps) simp
    with \<open>?w0 \<noteq> T ! 1\<close> show ?thesis by blast
  next
    case (Suc j)
    with assms(3) have "int (stl s !! j) mod (?hi + 1) \<noteq> T ! 1" by simp
    from redraw_returns[OF hi this] show ?thesis .
  qed
  then obtain w n where
    q: "redraw ?hi (T ! 1) ?w0 (stl s) = Some (Inr (w, sdrop n (stl s)))" and
    w: "w \<noteq> T ! 1" "w = ?w0 \<or> (0 \<le> w \<and> w \<le> ?hi)" by blast
  have rng: "0 \<le> w \<and> w \<le> ?hi" using w(2) mod_range[OF hi, of "shd s"] by auto
  from assms(1) hi q have "corrupted_sample self T s = Some (Inr ([T ! 0, w, T ! 2], sdrop (Suc n) s))"
    by (simp add: corrupted_sample_def randint_def py_index_def)
  with w(1) rng show ?thesis by (intro exI[of _ w] exI[of _ "Suc n"]) simp
qed

text \<open>
  C1. For a trigram \<open>T\<close> of three ids and a vocabulary of at least two words, whatever
  the random source delivers: every result of \<open>corrupted_sample\<close> is a trigram, never an
  exception, with the first and last id of \<open>T\<close> and a middle id in
  \<open>[0, vocabulary_size)\<close> that differs from the middle id of \<open>T\<close>; and the call
  returns as soon as the source delivers one draw that differs from that middle id.
\<close>

theorem corrupted_sample_middle_only:
  assumes "length T = 3" and "2 \<le> length (vocab self)"
  shows "(\<forall>r. corrupted_sample self T s = Some r \<longrightarrow>
            (\<exists>w s'. r = Inr ([T ! 0, w, T ! 2], s') \<and> 0 \<le> w
               \<and> w < int (length (vocab self)) \<and> w \<noteq> T ! 1))
         \<and> ((\<exists>k. int (s !! k) mod int (length (vocab self)) \<noteq> T ! 1) \<longrightarrow>
            corrupted_sample self T s \<noteq> None)"
proof -
  from assms(2) have pos: "0 < length (vocab self)" by auto
  have "\<exists>w s'. r = Inr ([T ! 0, w, T ! 2], s') \<and> 0 \<le> w
          \<and> w < int (length (vocab self)) \<and> w \<noteq> T ! 1"
    if "corrupted_sample self T s = Some r" for r
    using corrupted_sample_result[OF assms(1) pos that] .
  moreover have "corrupted_sample self T s \<noteq> None"
    if "int (s !! k) mod int (length (vocab self)) \<noteq> T ! 1" for k
    using corrupted_sample_returns[OF assms(1) pos that] by auto
  ultimately show ?thesis by blast
qed

theorem corrupted_sample_middle_only_witness:
  "length [0, 0, 0 :: int] = 3 \<and> 2 \<le> length (vocab good_bad)
   \<and> (\<exists>k. int (counting !! k) mod int (length (vocab good_bad)) \<noteq> [0, 0, 0] ! 1)
   \<and> (\<exists>w s'. corrupted_sample good_bad [0, 0, 0] counting = Some (Inr ([0, w, 0], s'))
         \<and> 0 \<le> w \<and> w < 2 \<and> w \<noteq> 0)"
proof -
  have len: "length [0, 0, 0 :: int] = 3" by simp
  have voc: "2 \<le> length (vocab good_bad)" by (simp add: good_bad_def)
  have "int (counting !! 1) mod int (length (vocab good_bad)) \<noteq> [0, 0, 0] ! 1"
    by (simp add: counting_def good_bad_def)
  then have draw: "\<exists>k. int (counting !! k) mod int (length (vocab good_bad)) \<noteq> [0, 0, 0] ! 1" ..
  from corrupted_sample_middle_only[OF len voc, of counting] draw
  obtain r where r: "corrupted_sample good_bad [0, 0, 0] counting = Some r"
    and "\<exists>w s'. r = Inr ([[0, 0, 0] ! 0, w, [0, 0, 0] ! 2], s') \<and> 0 \<le> w
          \<and> w < int (length (vocab good_bad)) \<and> w \<noteq> [0, 0, 0] ! 1"
    by blast
  then have "\<exists>w s'. corrupted_sample good_bad [0, 0, 0] counting = Some (Inr ([0, w, 0], s'))
         \<and> 0 \<le> w \<and> w < 2 \<and> w \<noteq> 0"
    by (auto simp: good_bad_def)
  with len voc draw show ?thesis by blast
qed

text \<open>
  With a vocabulary of one word every draw is 0, and a trigram whose middle id is 0 is
  redrawn forever: no error is reported.
\<close>

theorem corrupted_sample_one_word_counterexample:
  "corrupted_sample one_word [0, 0, 0] counting = None"
proof -
  have "redraw 0 0 0 (stl counting) = None"
    by (rule redraw_stuck) simp_all
  then show ?thesis
    by (simp add: corrupted_sample_def one_word_def good_bad_def randint_def py_index_def)
qed

text \<open>
  C5, as the code has it. With an empty vocabulary the first draw raises ValueError
  (\<open>randint\<close> over an empty range). With a vocabulary of one word the call returns
  \<open>[first, 0, last]\<close> after one draw when the middle id is not 0, and never returns when
  the middle id is 0.
\<close>

theorem corrupted_sample_small_vocabulary:
  assumes "length T = 3" and "length (vocab self) \<le> 1"
  shows "corrupted_sample self T s =
           (if vocab self = [] then Some (Inl ValueError)
            else if T ! 1 = 0 then None
            else Some (Inr ([T ! 0, 0, T ! 2], stl s)))"
proof (cases "vocab self = []")
  case True
  then show ?thesis by (simp add: corrupted_sample_def randint_def)
next
  case False
  with assms(2) have one: "length (vocab self) = 1" by (cases "vocab self") auto
  show ?thesis
  proof (cases "T ! 1 = 0")
    case True
    have "redraw 0 0 0 (stl s) = None" by (rule redraw_stuck) simp_all
    with True False one assms(1) show ?thesis
      by (simp add: corrupted_sample_def randint_def py_index_def)
  next
    case ne: False
    then have "redraw 0 (T ! 1) 0 (stl s) = Some (Inr (0, stl s))"
      by (subst redraw.simps) simp
    with ne False one assms(1) show ?thesis
      by (simp add: corrupted_sample_def randint_def py_index_def)
  qed
qed

theorem corrupted_sample_small_vocabulary_witness:
  "length [0, 0, 0 :: int] = 3 \<and> length (vocab one_word) \<le> 1
   \<and> corrupted_sample one_word [0, 0, 0] (sconst 0) = None"
  using corrupted_sample_small_vocabulary [of "[0, 0, 0]" one_word "sconst 0"]
  by (simp add: one_word_def good_bad_def)


section \<open>The sample generator\<close>

lemma floor_third: "nat \<lfloor>real n / 3\<rfloor> = n div 3"
proof -
  have "\<lfloor>real n / real 3\<rfloor> = int (n div 3)"
    by (rule floor_divide_of_nat_eq)
  then show ?thesis by simp
qed

lemma chunks_eq: "chunks t = map (\<lambda>i. take 3 (drop (i * 3) t)) [0..<length t div 3]"
  by (simp add: chunks_def py_slice_def floor_third)

lemma chunks_spec: "chunks t = spec_trigrams t"
proof (induction t rule: spec_trigrams.induct)
  case (1 a b c rest)
  have "[0..<Suc (length rest div 3)] = 0 # map Suc [0..<length rest div 3]"
    by (simp add: upt_conv_Cons map_Suc_upt del: upt_Suc)
  moreover have "drop (3 + k) (a # b # c # rest) = drop k rest" for k
    by (simp add: numeral_3_eq_3)
  ultimately have "chunks (a # b # c # rest) = [a, b, c] # chunks rest"
    by (simp add: chunks_eq comp_def del: upt_Suc)
  with 1 show ?case by simp
qed (simp_all add: chunks_eq)

lemma length_spec_trigrams: "length (spec_trigrams t) = length t div 3"
  by (induction t rule: spec_trigrams.induct) simp_all

lemma spec_trigrams_three: "c \<in> set (spec_trigrams t) \<Longrightarrow> length c = 3"
  by (induction t rule: spec_trigrams.induct) auto

lemma window_one:
  assumes "i < length xs"
  shows "take (Suc 0) (drop i xs) = [xs ! i]"
proof -
  from assms have "drop i xs = xs ! i # drop (Suc i) xs"
    by (rule Cons_nth_drop_Suc [symmetric])
  then show ?thesis by simp
qed

lemma unigrams: "map (join sep) (ngrams xs (Suc 0)) = xs"
proof -
  have "map (join sep) (ngrams xs (Suc 0)) = map (\<lambda>i. xs ! i) [0..<length xs]"
    by (simp add: ngrams_def window_one)
  then show ?thesis by (simp add: map_nth)
qed

lemma stride_one: "py_stride xs (Suc 0) = Inr xs"
  by (simp add: py_stride_def map_nth)

lemma current_tweet_unigram:
  assumes "ngram self = 1" "csv_columns self = Some cols" "field cols ''text'' line = Inr tx"
  shows "current_tweet self line = Inr (preprocessor self tx)"
  using assms
  by (auto simp: current_tweet_def field_def unigrams stride_one split: sum.splits)

lemma unstuck_sdrop: "unstuck V s \<Longrightarrow> unstuck V (sdrop n s)"
  unfolding unstuck_def
proof (intro allI)
  fix j m
  assume a: "\<forall>n m. \<exists>k. int (s !! (n + k)) mod int V \<noteq> m"
  then obtain k where "int (s !! ((n + j) + k)) mod int V \<noteq> m" by blast
  then have "int (sdrop n s !! (j + k)) mod int V \<noteq> m"
    by (simp add: sdrop_snth add.assoc)
  then show "\<exists>k. int (sdrop n s !! (j + k)) mod int V \<noteq> m" ..
qed

lemma unstuck_draw: "unstuck V s \<Longrightarrow> \<exists>k. int (s !! k) mod int V \<noteq> m"
  unfolding unstuck_def by (metis add_0)

lemma unstuck_counting: "unstuck 2 counting"
  unfolding unstuck_def
proof (intro allI)
  fix n m
  have nth: "counting !! j = j" for j
    by (simp add: counting_def)
  have p: "int n mod 2 \<noteq> m \<or> int (Suc n) mod 2 \<noteq> m" by presburger
  show "\<exists>k. int (counting !! (n + k)) mod int 2 \<noteq> m"
  proof (cases "int n mod 2 \<noteq> m")
    case True
    then have "int (counting !! (n + 0)) mod int 2 \<noteq> m"
      unfolding nth by simp
    then show ?thesis ..
  next
    case False
    with p have "int (Suc n) mod 2 \<noteq> m" by blast
    then have "int (counting !! (n + 1)) mod int 2 \<noteq> m"
      unfolding nth by simp
    then show ?thesis ..
  qed
qed

lemma emit_chunks_all:
  assumes "0 < length (vocab self)" and "\<forall>c \<in> set cs. length c = 3"
    and "unstuck (length (vocab self)) s"
  shows "\<exists>out n. emit_chunks word_id self l cs s = (out, Inr (sdrop n s))
           \<and> map (fst \<circ> fst) out = map (lookup_ids word_id (vocab self)) cs
           \<and> (\<forall>x \<in> set out. snd x = l)"
  using assms(2,3)
proof (induction cs arbitrary: s)
  case Nil
  have "emit_chunks word_id self l [] s = ([], Inr (sdrop 0 s))" by simp
  then show ?case by (metis list.simps(8) empty_iff list.set(1))
next
  case (Cons c cs)
  let ?T = "lookup_ids word_id (vocab self) c"
  have len: "length ?T = 3" using Cons.prems(1) by (simp add: lookup_ids_def)
  from unstuck_draw[OF Cons.prems(2)] obtain k where
    "int (s !! k) mod int (length (vocab self)) \<noteq> ?T ! 1" by blast
  from corrupted_sample_returns[OF len assms(1) this] obtain w n where
    cs: "corrupted_sample self ?T s = Some (Inr ([?T ! 0, w, ?T ! 2], sdrop n s))" by blast
  have "\<forall>c \<in> set cs. length c = 3" using Cons.prems(1) by simp
  from Cons.IH[OF this unstuck_sdrop[OF Cons.prems(2)], of n] obtain out n' where
    ih: "emit_chunks word_id self l cs (sdrop n s) = (out, Inr (sdrop n' (sdrop n s)))"
      "map (fst \<circ> fst) out = map (lookup_ids word_id (vocab self)) cs"
      "\<forall>x \<in> set out. snd x = l" by blast
  let ?x = "((?T, [?T ! 0, w, ?T ! 2]), l)"
  have e: "emit_chunks word_id self l (c # cs) s = (?x # out, Inr (sdrop (n + n') s))"
    using cs ih(1) by (simp add: sdrop_add add.commute Let_def)
  have m: "map (fst \<circ> fst) (?x # out) = map (lookup_ids word_id (vocab self)) (c # cs)"
    using ih(2) by simp
  have "\<forall>x \<in> set (?x # out). snd x = l" using ih(3) by simp
  with e m show ?case by blast
qed

lemma process_line_trigrams:
  assumes "ngram self = 1" "csv_columns self = Some cols" "0 < length (vocab self)"
    and "unstuck (length (vocab self)) s" and "well_formed py_int cols line"
  shows "\<exists>out n. process_line py_int word_id self line s = (out, Inr (sdrop n s))
           \<and> map (fst \<circ> fst) out
               = map (lookup_ids word_id (vocab self)) (spec_trigrams (tokens self cols line))
           \<and> length out = length (tokens self cols line) div 3"
proof -
  from assms(5) obtain tx f v where
    f: "field cols ''text'' line = Inr tx" "field cols ''sentiment'' line = Inr f"
      "py_int f = Some v"
    by (auto simp: well_formed_def split: sum.splits)
  have tw: "current_tweet self line = Inr (preprocessor self tx)"
    using current_tweet_unigram[OF assms(1,2) f(1)] .
  have lb: "current_label py_int self line = Inr (if v > 0 then 1 else - 1)"
    using assms(2) f(2,3) by (auto simp: current_label_def field_def split: sum.splits)
  have tk: "tokens self cols line = preprocessor self tx"
    using f(1) by (simp add: tokens_def)
  have three: "\<forall>c \<in> set (spec_trigrams (preprocessor self tx)). length c = 3"
    using spec_trigrams_three by blast
  from emit_chunks_all[OF assms(3) three assms(4), of word_id "if v > 0 then 1 else - 1"]
  obtain out n where
    e: "emit_chunks word_id self (if v > 0 then 1 else - 1) (spec_trigrams (preprocessor self tx)) s
          = (out, Inr (sdrop n s))"
      "map (fst \<circ> fst) out
         = map (lookup_ids word_id (vocab self)) (spec_trigrams (preprocessor self tx))"
    by blast
  have "process_line py_int word_id self line s = (out, Inr (sdrop n s))"
    using tw lb e(1) by (simp add: process_line_def chunks_spec)
  moreover have "length out = length (preprocessor self tx) div 3"
    using arg_cong[OF e(2), of length] by (simp add: length_spec_trigrams)
  ultimately show ?thesis using e(2) tk by auto
qed

lemma generate_rows_blocks:
  assumes "ngram self = 1" "csv_columns self = Some cols" "0 < length (vocab self)"
    and "unstuck (length (vocab self)) s" and "\<forall>line \<in> set rows. well_formed py_int cols line"
  shows "\<exists>outs. generate_rows py_int word_id self rows s = (concat outs, Exhausted)
           \<and> list_all2 (\<lambda>line out.
                 map (fst \<circ> fst) out
                   = map (lookup_ids word_id (vocab self)) (spec_trigrams (tokens self cols line))
                 \<and> length out = length (tokens self cols line) div 3) rows outs"
    (is "\<exists>outs. _ = _ \<and> list_all2 ?P rows outs")
  using assms(4,5)
proof (induction rows arbitrary: s)
  case Nil
  have "generate_rows py_int word_id self [] s = (concat [], Exhausted)" by simp
  moreover have "list_all2 ?P [] []" by simp
  ultimately show ?case by (rule_tac x = "[]" in exI) (rule conjI)
next
  case (Cons line rows)
  from Cons.prems(2) have wf: "well_formed py_int cols line" by simp
  from process_line_trigrams[OF assms(1,2,3) Cons.prems(1) wf, of word_id] obtain out n where
    p: "process_line py_int word_id self line s = (out, Inr (sdrop n s))" "?P line out"
    by blast
  have "\<forall>line \<in> set rows. well_formed py_int cols line" using Cons.prems(2) by simp
  from Cons.IH[OF unstuck_sdrop[OF Cons.prems(1)] this, of n] obtain outs where
    ih: "generate_rows py_int word_id self rows (sdrop n s) = (concat outs, Exhausted)"
      "list_all2 ?P rows outs" by blast
  have g: "generate_rows py_int word_id self (line # rows) s = (concat (out # outs), Exhausted)"
    using p(1) ih(1) by simp
  have l: "list_all2 ?P (line # rows) (out # outs)"
    using p(2) ih(2) by (rule list_all2_Cons [THEN iffD2, OF conjI])
  from g l show ?case by (rule_tac x = "out # outs" in exI) (rule conjI)
qed

lemma emit_chunks_label:
  "x \<in> set (fst (emit_chunks word_id self l cs s)) \<Longrightarrow> snd x = l"
proof (induction cs arbitrary: s x)
  case Nil
  then show ?case by simp
next
  case (Cons c cs)
  show ?case
  proof (cases "corrupted_sample self (lookup_ids word_id (vocab self) c) s")
    case None
    with Cons.prems show ?thesis by (simp add: Let_def)
  next
    case (Some r)
    show ?thesis
    proof (cases r)
      case (Inl e)
      with Some Cons.prems show ?thesis by (simp add: Let_def)
    next
      case (Inr q)
      obtain corrupted s' where q: "q = (corrupted, s')" by (cases q)
      obtain out r' where e: "emit_chunks word_id self l cs s' = (out, r')"
        by (cases "emit_chunks word_id self l cs s'")
      from Cons.prems Some Inr q e
      have "x = ((lookup_ids word_id (vocab self) c, corrupted), l) \<or> x \<in> set out"
        by (simp add: Let_def)
      moreover have "snd x = l" if "x \<in> set out"
        using Cons.IH [of x s'] that e by simp
      ultimately show ?thesis by auto
    qed
  qed
qed

text \<open>
  C3. With ngram degree 1, well-formed rows, a vocabulary of at least two words and a random
  source that is not stuck, the run of \<open>generate_samples\<close> ends by exhausting the reader
  and its output splits into one block per row, in row order. The block of a row whose
  tokenized text has length \<open>L\<close> holds exactly \<open>L div 3\<close> samples, and their original
  trigrams are the ids of the consecutive, non-overlapping groups of three tokens of that
  row alone, the final incomplete group dropped.
\<close>

theorem generate_samples_trigrams:
  assumes "ngram self = 1" and "csv_columns self = Some cols"
    and "2 \<le> length (vocab self)" and "unstuck (length (vocab self)) s"
    and "list_all (well_formed py_int cols) (reader self)"
  shows "\<exists>outs. generate_samples py_int word_id self s = (concat outs, Exhausted)
           \<and> list_all2 (\<lambda>line out.
                 map (fst \<circ> fst) out
                   = map (lookup_ids word_id (vocab self)) (spec_trigrams (tokens self cols line))
                 \<and> length out = length (tokens self cols line) div 3) (reader self) outs"
proof -
  from assms(3) have pos: "0 < length (vocab self)" by auto
  from assms(5) have rows: "\<forall>line \<in> set (reader self). well_formed py_int cols line"
    by (simp add: list_all_iff)
  show ?thesis
    unfolding generate_samples_def
    by (rule generate_rows_blocks [OF assms(1,2) pos assms(4) rows])
qed

lemma good_bad_run:
  "generate_samples decimal position good_bad counting
     = ([(([0, 0, 0], [0, 1, 0]), 1), (([1, 1, 1], [1, 0, 1]), 1)], Exhausted)"
  by (simp add: generate_samples_def good_bad_def process_line_def current_tweet_def
      current_label_def tweet_columns_def py_index_def ngrams_def py_stride_def decimal_def
      chunks_def py_slice_def upt_rec lookup_ids_def position_def corrupted_sample_def
      randint_def counting_def redraw.simps)


lemma good_bad_well_formed:
  "list_all (well_formed decimal tweet_columns) (reader good_bad)"
  by (simp add: good_bad_def well_formed_def field_def tweet_columns_def py_index_def
      decimal_def)

theorem generate_samples_trigrams_witness:
  "ngram good_bad = 1 \<and> csv_columns good_bad = Some tweet_columns
   \<and> 2 \<le> length (vocab good_bad) \<and> unstuck (length (vocab good_bad)) counting
   \<and> list_all (well_formed decimal tweet_columns) (reader good_bad)
   \<and> (\<exists>outs. generate_samples decimal position good_bad counting = (concat outs, Exhausted)
         \<and> list_all2 (\<lambda>line out.
               map (fst \<circ> fst) out
                 = map (lookup_ids position (vocab good_bad))
                     (spec_trigrams (tokens good_bad tweet_columns line))
               \<and> length out = length (tokens good_bad tweet_columns line) div 3)
             (reader good_bad) outs)"
proof -
  have a: "ngram good_bad = 1" by (simp add: good_bad_def)
  have b: "csv_columns good_bad = Some tweet_columns" by (simp add: good_bad_def)
  have c: "2 \<le> length (vocab good_bad)" by (simp add: good_bad_def)
  have d: "unstuck (length (vocab good_bad)) counting"
    using unstuck_counting by (simp add: good_bad_def numeral_2_eq_2)
  note e = good_bad_well_formed
  from generate_samples_trigrams [OF a b c d e, of position] a b c d e
  show ?thesis by blast
qed

text \<open>
  C4. Every sample that the loop body yields for a row carries a label computed from the
  sentiment field of that row, which then reads as an integer \<open>v\<close>: the label is \<open>1\<close>
  exactly when \<open>v > 0\<close> and \<open>- 1\<close> exactly when \<open>v \<le> 0\<close>, so a sentiment of
  \<open>0\<close> gives \<open>- 1\<close>.
\<close>

theorem label_polarity:
  "\<forall>x \<in> set (fst (process_line py_int word_id self line s)).
     \<exists>cols f v. csv_columns self = Some cols \<and> field cols ''sentiment'' line = Inr f
       \<and> py_int f = Some v \<and> (snd x = 1 \<longleftrightarrow> 0 < v) \<and> (snd x = - 1 \<longleftrightarrow> v \<le> 0)"
proof
  fix x
  assume x: "x \<in> set (fst (process_line py_int word_id self line s))"
  then obtain tweet where tw: "current_tweet self line = Inr tweet"
    by (cases "current_tweet self line") (simp_all add: process_line_def)
  with x obtain l where lb: "current_label py_int self line = Inr l"
    by (cases "current_label py_int self line") (simp_all add: process_line_def)
  from lb obtain cols f v where
    f: "csv_columns self = Some cols" "field cols ''sentiment'' line = Inr f"
      "py_int f = Some v" "l = (if v > 0 then 1 else - 1)"
    by (auto simp: current_label_def field_def split: option.splits sum.splits)
  from x tw lb have "x \<in> set (fst (emit_chunks word_id self l (chunks tweet) s))"
    by (simp add: process_line_def)
  then have "snd x = l" by (rule emit_chunks_label)
  with f have "(snd x = 1 \<longleftrightarrow> 0 < v) \<and> (snd x = - 1 \<longleftrightarrow> v \<le> 0)" by auto
  with f(1,2,3) show "\<exists>cols f v. csv_columns self = Some cols
       \<and> field cols ''sentiment'' line = Inr f
       \<and> py_int f = Some v \<and> (snd x = 1 \<longleftrightarrow> 0 < v) \<and> (snd x = - 1 \<longleftrightarrow> v \<le> 0)"
    by blast
qed

lemma neutral_row_run:
  "fst (process_line decimal position good_bad neutral_row counting)
     = [(([1, 1, 1], [1, 0, 1]), - 1)]"
  by (simp add: good_bad_def process_line_def current_tweet_def neutral_row_def
      current_label_def tweet_columns_def py_index_def ngrams_def py_stride_def decimal_def
      chunks_def py_slice_def upt_rec lookup_ids_def position_def corrupted_sample_def
      randint_def counting_def redraw.simps)

theorem label_polarity_witness:
  "(([1, 1, 1], [1, 0, 1]), - 1)
     \<in> set (fst (process_line decimal position good_bad neutral_row counting))
   \<and> (\<exists>f. field tweet_columns ''sentiment'' neutral_row = Inr f \<and> decimal f = Some 0)"
proof -
  have m: "(([1, 1, 1], [1, 0, 1]), - 1)
     \<in> set (fst (process_line decimal position good_bad neutral_row counting))"
    by (simp add: neutral_row_run)
  with label_polarity [of decimal position good_bad neutral_row counting]
  obtain cols f v where
    "csv_columns good_bad = Some cols" "field cols ''sentiment'' neutral_row = Inr f"
    "decimal f = Some v" by fastforce
  moreover have "field tweet_columns ''sentiment'' neutral_row = Inr ''0''"
    by (simp add: field_def tweet_columns_def neutral_row_def py_index_def)
  moreover have "decimal ''0'' = Some 0" by (simp add: decimal_def)
  ultimately show ?thesis using m by simp
qed

text \<open>
  C10. Constructed with \<open>csv_columns = None\<close> on a file with a first row, the generator
  has consumed that row as a header, yet its \<open>csv_columns\<close> attribute is \<open>None\<close>. Its
  run yields no sample: with a row left to read it raises AttributeError at the first
  row instead of using the header, and with no row left it just ends.
\<close>

theorem header_columns_overwritten:
  "\<exists>g. InputGenerator (header # rest) vocabulary pre n None = Inr g
     \<and> csv_columns g = None \<and> reader g = rest
     \<and> generate_samples py_int word_id g s
         = ([], if rest = [] then Exhausted else Raised AttributeError)"
proof -
  let ?g = "\<lparr>reader = rest, preprocessor = pre, ngram = n, csv_columns = None,
             vocab = vocabulary\<rparr>"
  have "InputGenerator (header # rest) vocabulary pre n None = Inr ?g"
    by (simp add: InputGenerator_def)
  moreover have "generate_samples py_int word_id ?g s
         = ([], if rest = [] then Exhausted else Raised AttributeError)"
    by (cases rest) (simp_all add: generate_samples_def process_line_def current_tweet_def)
  ultimately show ?thesis by simp
qed

theorem header_columns_overwritten_witness:
  "\<exists>g. InputGenerator (tweet_columns # reader good_bad) (vocab good_bad) (blank_split []) 1 None
         = Inr g
     \<and> csv_columns g = None \<and> reader g = reader good_bad
     \<and> generate_samples decimal position g counting = ([], Raised AttributeError)"
  using header_columns_overwritten
    [of tweet_columns "reader good_bad" "vocab good_bad" "blank_split []" 1 decimal position
      counting]
  by (simp add: good_bad_def)


section \<open>The scorer\<close>

lemma dims_create: "dims (create f r c) r c"
  by (simp add: dims_def create_def list_all_iff)

lemma get_variable_Inr:
  assumes "get_variable initial g name (r, c) init = Inr (v, g')"
  shows "dims v r c" and "variables g' name = Some v"
    and "\<And>m w. variables g m = Some w \<Longrightarrow> variables g' m = Some w"
proof -
  show "dims v r c"
    using assms by (auto simp: get_variable_def Let_def dims_create split: option.splits if_splits)
  show "variables g' name = Some v"
    using assms by (auto simp: get_variable_def Let_def split: option.splits if_splits)
  show "variables g' m = Some w" if "variables g m = Some w" for m w
    using assms that by (auto simp: get_variable_def Let_def split: option.splits if_splits)
qed

lemma get_variable_reuse:
  assumes "variables g name = Some v" and "dims v r c"
  shows "get_variable initial g name (r, c) init = Inr (v, g)"
  using assms by (simp add: get_variable_def)

lemma get_variable_runs:
  assumes "\<And>v. variables g name = Some v \<Longrightarrow> dims v r c"
  shows "\<exists>v g'. get_variable initial g name (r, c) init = Inr (v, g')"
  using assms by (cases "variables g name") (simp_all add: get_variable_def Let_def)

lemma dims_one_row: "dims m (Suc 0) u \<Longrightarrow> \<exists>b. m = [b] \<and> length b = u"
  by (cases m) (auto simp: dims_def)

lemma map2_add_upt:
  assumes "length b = u"
  shows "map2 (+) (map f [0..<u]) b = map (\<lambda>j. f j + b ! j) [0..<u]"
  using assms by (intro nth_equalityI) simp_all

lemma biased_activation:
  assumes "length b = u"
  shows "map (\<lambda>p. act (case p of (v, w) \<Rightarrow> v + w)) (zip (map f [0..<u]) b)
           = map (\<lambda>j. act (f j + b ! j)) [0..<u]"
  using assms by (intro nth_equalityI) simp_all

lemma dense_Inr:
  assumes "dense initial g name x n u act = Inr (y, g')"
  shows "\<exists>K b. variables g' (name @ ''/kernel'') = Some K
           \<and> variables g' (name @ ''/bias'') = Some [b]
           \<and> dims K n u \<and> length b = u \<and> list_all (\<lambda>row. length row = n) x
           \<and> y = map (\<lambda>row. map (\<lambda>j. act ((\<Sum>i \<leftarrow> [0..<n]. row ! i * K ! i ! j) + b ! j))
                              [0..<u]) x
           \<and> (\<forall>m w. variables g m = Some w \<longrightarrow> variables g' m = Some w)"
proof -
  from assms obtain K g1 where
    k: "get_variable initial g (name @ ''/kernel'') (n, u) Glorot_uniform = Inr (K, g1)"
    by (auto simp: dense_def split: sum.splits)
  with assms obtain B where
    b: "get_variable initial g1 (name @ ''/bias'') (1, u) Zeros = Inr (B, g')"
    by (auto simp: dense_def split: sum.splits)
  from assms k b obtain z where
    z: "matmul x K n u = Inr z"
       "y = map (\<lambda>row. map act (map2 (+) row (B ! 0))) z"
    by (auto simp: dense_def split: sum.splits)
  from get_variable_Inr(1)[OF b] obtain bb where bb: "B = [bb]" "length bb = u"
    using dims_one_row by auto
  from z(1) have rows: "list_all (\<lambda>row. length row = n) x"
    and zeq: "z = map (\<lambda>row. map (\<lambda>j. \<Sum>i \<leftarrow> [0..<n]. row ! i * K ! i ! j) [0..<u]) x"
    by (auto simp: matmul_def split: if_splits)
  have y: "y = map (\<lambda>row. map (\<lambda>j. act ((\<Sum>i \<leftarrow> [0..<n]. row ! i * K ! i ! j) + bb ! j))
                              [0..<u]) x"
    unfolding z(2) zeq using bb by (simp add: biased_activation comp_def)
  have kk: "variables g' (name @ ''/kernel'') = Some K"
    using get_variable_Inr(3)[OF b get_variable_Inr(2)[OF k]] .
  have kb: "variables g' (name @ ''/bias'') = Some [bb]"
    using get_variable_Inr(2)[OF b] bb by simp
  have pres: "\<forall>m w. variables g m = Some w \<longrightarrow> variables g' m = Some w"
    using get_variable_Inr(3)[OF b] get_variable_Inr(3)[OF k] by blast
  from kk kb get_variable_Inr(1)[OF k] bb(2) rows y pres show ?thesis by blast
qed

lemma dense_reuse:
  assumes "variables g (name @ ''/kernel'') = Some K" "dims K n u"
    and "variables g (name @ ''/bias'') = Some [b]" "length b = u"
    and "list_all (\<lambda>row. length row = n) x"
  shows "dense initial g name x n u act
           = Inr (map (\<lambda>row. map (\<lambda>j. act ((\<Sum>i \<leftarrow> [0..<n]. row ! i * K ! i ! j) + b ! j))
                              [0..<u]) x, g)"
proof -
  have "dims [b] 1 u" using assms(4) by (simp add: dims_def)
  then show ?thesis
    using assms
    by (simp add: dense_def get_variable_reuse matmul_def biased_activation comp_def)
qed

lemma dense_activation:
  "dense initial g name x n u act
     = (case dense initial g name x n u (\<lambda>v. v) of
          Inl e \<Rightarrow> Inl e
        | Inr (pre, g') \<Rightarrow> Inr (map (map act) pre, g'))"
  by (simp add: dense_def comp_def split: sum.splits prod.splits)

lemma get_variable_other:
  assumes "get_variable initial g name (r, c) init = Inr (v, g')" and "m \<noteq> name"
  shows "variables g' m = variables g m"
  using assms by (auto simp: get_variable_def Let_def split: option.splits if_splits)

lemma dense_other:
  assumes "dense initial g name x n u act = Inr (y, g')"
    and "m \<noteq> name @ ''/kernel''" and "m \<noteq> name @ ''/bias''"
  shows "variables g' m = variables g m"
proof -
  from assms(1) obtain K g1 where
    k: "get_variable initial g (name @ ''/kernel'') (n, u) Glorot_uniform = Inr (K, g1)"
    by (auto simp: dense_def split: sum.splits)
  with assms(1) obtain B where
    b: "get_variable initial g1 (name @ ''/bias'') (1, u) Zeros = Inr (B, g')"
    by (auto simp: dense_def split: sum.splits)
  from get_variable_other[OF b assms(3)] get_variable_other[OF k assms(2)]
  show ?thesis by simp
qed

lemma dense_runs:
  assumes "\<And>v. variables g (name @ ''/kernel'') = Some v \<Longrightarrow> dims v n u"
    and "\<And>v. variables g (name @ ''/bias'') = Some v \<Longrightarrow> dims v 1 u"
    and "list_all (\<lambda>row. length row = n) x"
  shows "\<exists>y g'. dense initial g name x n u act = Inr (y, g')"
proof -
  from get_variable_runs[of g "name @ ''/kernel''" n u initial Glorot_uniform] assms(1)
  obtain K g1 where
    k: "get_variable initial g (name @ ''/kernel'') (n, u) Glorot_uniform = Inr (K, g1)"
    by blast
  have "variables g1 (name @ ''/bias'') = variables g (name @ ''/bias'')"
    by (rule get_variable_other[OF k]) simp
  with assms(2) have "\<And>v. variables g1 (name @ ''/bias'') = Some v \<Longrightarrow> dims v 1 u" by simp
  from get_variable_runs[of g1 "name @ ''/bias''" 1 u initial Zeros] this
  obtain B g2 where
    b: "get_variable initial g1 (name @ ''/bias'') (1, u) Zeros = Inr (B, g2)"
    by blast
  from k b assms(3) show ?thesis by (simp add: dense_def matmul_def)
qed

lemma parameters_preserved:
  assumes "parameters g = Some th"
    and "\<forall>m w. variables g m = Some w \<longrightarrow> variables g' m = Some w"
  shows "parameters g' = Some th"
proof -
  from assms(1) obtain e hk hb ok ob where
    v: "variables g ''shared_network/word_embeddings'' = Some e"
       "variables g ''shared_network/hidden/kernel'' = Some hk"
       "variables g ''shared_network/hidden/bias'' = Some hb"
       "variables g ''shared_network/output/kernel'' = Some ok"
       "variables g ''shared_network/output/bias'' = Some ob"
    by (auto simp: parameters_def split: option.splits)
  with assms(2) have
    "variables g' ''shared_network/word_embeddings'' = Some e"
    "variables g' ''shared_network/hidden/kernel'' = Some hk"
    "variables g' ''shared_network/hidden/bias'' = Some hb"
    "variables g' ''shared_network/output/kernel'' = Some ok"
    "variables g' ''shared_network/output/bias'' = Some ob"
    by blast+
  with v assms(1) show ?thesis by (simp add: parameters_def)
qed

lemma dims_row: "dims m r c \<Longrightarrow> i < r \<Longrightarrow> length (m ! i) = c"
  by (auto simp: dims_def list_all_iff)

lemma hidden_row:
  assumes "length row = n" and "length b = H"
  shows "map (\<lambda>j. clip_by_value ((\<Sum>i \<leftarrow> [0..<n]. row ! i * K ! i ! j) + b ! j) (- 1) 1) [0..<H]
           = map (\<lambda>j. max (- 1) (min 1 (affine K b row j))) [0..<length b]"
  using assms by (simp add: clip_by_value_def affine_def min.commute)

lemma shared_network_Inr:
  assumes "shared_network initial V E H init g x = Inr (out, g')"
  shows "\<exists>th. parameters g' = Some th
           \<and> dims (embedding_matrix th) V E \<and> dims (hidden_kernel th) (3 * E) H
           \<and> length (hidden_bias th) = H \<and> dims (output_kernel th) H 2
           \<and> length (output_bias th) = 2
           \<and> out = map (spec_score th) x
           \<and> list_all (list_all (\<lambda>i. 0 \<le> i \<and> i < int V)) x
           \<and> list_all (\<lambda>ids. length (concat (map (\<lambda>i. embedding_matrix th ! nat i) ids)) = 3 * E) x
           \<and> variables g' ''shared_network/hidden/bias'' = Some [hidden_bias th]
           \<and> variables g' ''shared_network/output/bias'' = Some [output_bias th]
           \<and> (\<forall>m w. variables g m = Some w \<longrightarrow> variables g' m = Some w)"
proof -
  from assms obtain we g1 where
    w: "get_variable initial g ''shared_network/word_embeddings'' (V, E) init = Inr (we, g1)"
    by (auto simp: shared_network_def split: sum.splits)
  with assms obtain embeds where e: "embedding_lookup we x = Inr embeds"
    by (auto simp: shared_network_def split: sum.splits)
  with assms w obtain hidden g2 where
    h: "dense initial g1 ''shared_network/hidden'' (flatten embeds) (3 * E) H
          (\<lambda>x. clip_by_value x (- 1) 1) = Inr (hidden, g2)"
    by (auto simp: shared_network_def split: sum.splits)
  with assms w e have
    o: "dense initial g2 ''shared_network/output'' hidden H 2 (\<lambda>x. x) = Inr (out, g')"
    by (auto simp: shared_network_def)
  note dw = get_variable_Inr[OF w]
  from dw(1) have lw: "length we = V" by (simp add: dims_def)
  from e lw have range: "list_all (list_all (\<lambda>i. 0 \<le> i \<and> i < int V)) x"
    and emb: "embeds = map (map (\<lambda>i. we ! nat i)) x"
    by (auto simp: embedding_lookup_def split: if_splits)
  let ?cc = "\<lambda>ids. concat (map (\<lambda>i. we ! nat i) ids)"
  have fl: "flatten embeds = map ?cc x" by (simp add: flatten_def emb comp_def)
  from dense_Inr[OF h] obtain K b where
    hk: "variables g2 (''shared_network/hidden'' @ ''/kernel'') = Some K"
        "variables g2 (''shared_network/hidden'' @ ''/bias'') = Some [b]"
        "dims K (3 * E) H" "length b = H"
        "list_all (\<lambda>row. length row = 3 * E) (flatten embeds)"
        "hidden = map (\<lambda>row. map (\<lambda>j. clip_by_value
                     ((\<Sum>i \<leftarrow> [0..<3 * E]. row ! i * K ! i ! j) + b ! j) (- 1) 1) [0..<H])
                   (flatten embeds)"
        "\<forall>m w. variables g1 m = Some w \<longrightarrow> variables g2 m = Some w"
    by blast
  from dense_Inr[OF o] obtain K2 b2 where
    ok: "variables g' (''shared_network/output'' @ ''/kernel'') = Some K2"
        "variables g' (''shared_network/output'' @ ''/bias'') = Some [b2]"
        "dims K2 H 2" "length b2 = 2"
        "out = map (\<lambda>row. map (\<lambda>j. (\<Sum>i \<leftarrow> [0..<H]. row ! i * K2 ! i ! j) + b2 ! j) [0..<2])
                 hidden"
        "\<forall>m w. variables g2 m = Some w \<longrightarrow> variables g' m = Some w"
    by blast
  let ?th = "\<lparr>embedding_matrix = we, hidden_kernel = K, hidden_bias = b,
              output_kernel = K2, output_bias = b2\<rparr>"
  have vw: "variables g' ''shared_network/word_embeddings'' = Some we"
    using dw(2) hk(7) ok(6) by blast
  have vk: "variables g' ''shared_network/hidden/kernel'' = Some K"
    and vb: "variables g' ''shared_network/hidden/bias'' = Some [b]"
    using hk(1,2) ok(6) by auto
  have par: "parameters g' = Some ?th"
    using vw vk vb ok(1,2) by (simp add: parameters_def)
  have rows: "list_all (\<lambda>ids. length (?cc ids) = 3 * E) x"
    using hk(5) by (simp add: fl list_all_iff)
  have hid: "hidden = map (spec_hidden ?th) x"
  proof -
    have "map (\<lambda>j. clip_by_value ((\<Sum>i \<leftarrow> [0..<3 * E]. ?cc ids ! i * K ! i ! j) + b ! j)
             (- 1) 1) [0..<H] = spec_hidden ?th ids" if "ids \<in> set x" for ids
    proof -
      from rows that have "length (?cc ids) = 3 * E" by (simp add: list_all_iff)
      from hidden_row[OF this hk(4), of K] show ?thesis
        by (simp add: spec_hidden_def Let_def)
    qed
    then show ?thesis unfolding hk(6) fl by (simp add: comp_def)
  qed
  have lh: "length (spec_hidden ?th ids) = H" for ids
    using hk(4) by (simp add: spec_hidden_def Let_def)
  have "out = map (spec_score ?th) x"
    unfolding ok(5) hid by (simp add: comp_def spec_score_def affine_def lh)
  moreover have "\<forall>m w. variables g m = Some w \<longrightarrow> variables g' m = Some w"
    using dw(3) hk(7) ok(6) by blast
  ultimately show ?thesis
    using par dw(1) hk(3,4) ok(2,3,4) vb range rows
    by (intro exI[of _ ?th]) simp
qed

lemma get_variable_fixed:
  assumes "variables g name = Some v"
    and "get_variable initial g name shape init = Inr (v', g')"
  shows "g' = g" and "v' = v"
  using assms by (auto simp: get_variable_def split: if_splits)

lemma dense_fixed:
  assumes "variables g (name @ ''/kernel'') = Some K" and "variables g (name @ ''/bias'') = Some B"
    and "dense initial g name x n u act = Inr (y, g')"
  shows "g' = g"
proof -
  from assms(3) obtain K' g1 where
    k: "get_variable initial g (name @ ''/kernel'') (n, u) Glorot_uniform = Inr (K', g1)"
    by (auto simp: dense_def split: sum.splits)
  with assms(3) obtain B' where
    b: "get_variable initial g1 (name @ ''/bias'') (1, u) Zeros = Inr (B', g')"
    by (auto simp: dense_def split: sum.splits)
  from get_variable_fixed(1)[OF assms(1) k] have "g1 = g" .
  with get_variable_fixed(1)[OF _ b] assms(2) show ?thesis by simp
qed

lemma parameters_Some:
  assumes "parameters g = Some th"
  shows "variables g ''shared_network/word_embeddings'' = Some (embedding_matrix th)"
    and "variables g ''shared_network/hidden/kernel'' = Some (hidden_kernel th)"
    and "variables g ''shared_network/output/kernel'' = Some (output_kernel th)"
    and "\<exists>B. variables g ''shared_network/hidden/bias'' = Some B"
    and "\<exists>B. variables g ''shared_network/output/bias'' = Some B"
  using assms by (auto simp: parameters_def split: option.splits)

lemma shared_network_fixed:
  assumes "parameters g = Some th"
    and "shared_network initial V E H init g y = Inr (out, g')"
  shows "g' = g"
proof -
  note v = parameters_Some[OF assms(1)]
  from assms(2) obtain we g1 where
    w: "get_variable initial g ''shared_network/word_embeddings'' (V, E) init = Inr (we, g1)"
    by (auto simp: shared_network_def split: sum.splits)
  with assms(2) obtain embeds where e: "embedding_lookup we y = Inr embeds"
    by (auto simp: shared_network_def split: sum.splits)
  with assms(2) w obtain hidden g2 where
    h: "dense initial g1 ''shared_network/hidden'' (flatten embeds) (3 * E) H
          (\<lambda>x. clip_by_value x (- 1) 1) = Inr (hidden, g2)"
    by (auto simp: shared_network_def split: sum.splits)
  with assms(2) w e have
    o: "dense initial g2 ''shared_network/output'' hidden H 2 (\<lambda>x. x) = Inr (out, g')"
    by (auto simp: shared_network_def)
  have g1: "g1 = g" using get_variable_fixed(1)[OF v(1) w] .
  from v(4) obtain B where "variables g ''shared_network/hidden/bias'' = Some B" ..
  with v(2) h g1 have g2: "g2 = g"
    using dense_fixed[of g "''shared_network/hidden''" "hidden_kernel th" B] by simp
  from v(5) obtain B2 where "variables g ''shared_network/output/bias'' = Some B2" ..
  with v(3) o g2 show ?thesis
    using dense_fixed[of g "''shared_network/output''" "output_kernel th" B2] by simp
qed

lemma admit_runs:
  assumes "admit g name r c"
  shows "\<exists>v g'. get_variable initial g name (r, c) init = Inr (v, g')"
  using assms by (intro get_variable_runs) (simp add: admit_def)

lemma shared_network_runs:
  assumes "admits g V E H" and "well_shaped V x"
  shows "\<exists>out g'. shared_network initial V E H init g x = Inr (out, g')"
proof -
  let ?n1 = "''shared_network/word_embeddings''"
  from assms(1) have a: "admit g ?n1 V E"
    "admit g ''shared_network/hidden/kernel'' (3 * E) H"
    "admit g ''shared_network/hidden/bias'' 1 H"
    "admit g ''shared_network/output/kernel'' H 2"
    "admit g ''shared_network/output/bias'' 1 2"
    by (simp_all add: admits_def)
  from admit_runs[OF a(1)] obtain we g1 where
    w: "get_variable initial g ?n1 (V, E) init = Inr (we, g1)" by blast
  note dw = get_variable_Inr(1)[OF w]
  then have lw: "length we = V" by (simp add: dims_def)
  from assms(2) have range: "list_all (list_all (\<lambda>i. 0 \<le> i \<and> i < int (length we))) x"
    by (auto simp: well_shaped_def list_all_iff lw)
  then have e: "embedding_lookup we x = Inr (map (map (\<lambda>i. we ! nat i)) x)"
    by (simp add: embedding_lookup_def)
  let ?embeds = "map (map (\<lambda>i. we ! nat i)) x"
  have row: "length (concat (map (\<lambda>i. we ! nat i) ids)) = 3 * E" if "ids \<in> set x" for ids
  proof -
    from assms(2) that have l: "length ids = 3" and r: "\<forall>i \<in> set ids. 0 \<le> i \<and> i < int V"
      by (auto simp: well_shaped_def list_all_iff)
    have "length (we ! nat i) = E" if "i \<in> set ids" for i
      using r that dims_row[OF dw, of "nat i"] by auto
    then have "sum_list (map (\<lambda>i. length (we ! nat i)) ids) = sum_list (map (\<lambda>i. E) ids)"
      by (intro arg_cong [where f = sum_list] map_cong) simp_all
    moreover have "length (concat (map (\<lambda>i. we ! nat i) ids))
                     = sum_list (map (\<lambda>i. length (we ! nat i)) ids)"
      by (simp add: length_concat comp_def)
    ultimately have "length (concat (map (\<lambda>i. we ! nat i) ids)) = sum_list (map (\<lambda>i. E) ids)"
      by (rule_tac trans)
    also have "\<dots> = 3 * E" using l by (simp add: sum_list_triv)
    finally show ?thesis .
  qed
  then have rows: "list_all (\<lambda>row. length row = 3 * E) (flatten ?embeds)"
    by (simp add: flatten_def list_all_iff comp_def)
  have o1: "\<And>m. m \<noteq> ?n1 \<Longrightarrow> variables g1 m = variables g m"
    using get_variable_other[OF w] by blast
  have "\<exists>y g'. dense initial g1 ''shared_network/hidden'' (flatten ?embeds) (3 * E) H
                  (\<lambda>x. clip_by_value x (- 1) 1) = Inr (y, g')"
    using a(2,3) rows by (intro dense_runs) (simp_all add: admit_def o1)
  then obtain hidden g2 where
    h: "dense initial g1 ''shared_network/hidden'' (flatten ?embeds) (3 * E) H
          (\<lambda>x. clip_by_value x (- 1) 1) = Inr (hidden, g2)" by blast
  from dense_Inr[OF h] obtain K b where
    hh: "length b = H"
      "hidden = map (\<lambda>row. map (\<lambda>j. clip_by_value
                     ((\<Sum>i \<leftarrow> [0..<3 * E]. row ! i * K ! i ! j) + b ! j) (- 1) 1) [0..<H])
                   (flatten ?embeds)"
    by blast
  have hrows: "list_all (\<lambda>row. length row = H) hidden"
    unfolding hh(2) by (simp add: list_all_iff)
  have o2: "variables g2 m = variables g m"
    if "m \<noteq> ?n1" "m \<noteq> ''shared_network/hidden/kernel''" "m \<noteq> ''shared_network/hidden/bias''"
    for m
    using dense_other[OF h, of m] o1[of m] that by simp
  have "\<exists>y g'. dense initial g2 ''shared_network/output'' hidden H 2 (\<lambda>x. x) = Inr (y, g')"
    using a(4,5) hrows by (intro dense_runs) (simp_all add: admit_def o2)
  then obtain out g' where
    "dense initial g2 ''shared_network/output'' hidden H 2 (\<lambda>x. x) = Inr (out, g')" by blast
  with w e h show ?thesis by (simp add: shared_network_def)
qed

lemma shared_network_admits:
  assumes "shared_network initial V E H init g x = Inr (out, g')"
  shows "admits g' V E H"
proof -
  from shared_network_Inr[OF assms] obtain th where
    p: "parameters g' = Some th" "dims (embedding_matrix th) V E"
      "dims (hidden_kernel th) (3 * E) H" "length (hidden_bias th) = H"
      "dims (output_kernel th) H 2" "length (output_bias th) = 2"
      "variables g' ''shared_network/hidden/bias'' = Some [hidden_bias th]"
      "variables g' ''shared_network/output/bias'' = Some [output_bias th]"
    by blast
  note v = parameters_Some[OF p(1)]
  show ?thesis
    using v(1,2,3) p(2-8) by (simp add: admits_def admit_def dims_def)
qed

lemma branches_runs:
  assumes "admits g V E H" and "well_shaped V (original feats)"
    and "well_shaped V (corrupted feats)"
  shows "\<exists>sc g'. branches initial V E H init g feats = Inr (sc, g')"
proof -
  from shared_network_runs[OF assms(1,2)] obtain out g1 where
    a: "shared_network initial V E H init g (original feats) = Inr (out, g1)" by blast
  from shared_network_runs[OF shared_network_admits[OF a] assms(3)] obtain out' g2 where
    "shared_network initial V E H init g1 (corrupted feats) = Inr (out', g2)" by blast
  with a show ?thesis by (simp add: branches_def)
qed

lemma fresh_admits: "admits fresh V E H"
  by (simp add: admits_def admit_def fresh_def)

lemma pairs_well_shaped: "well_shaped 2 (original pairs)" "well_shaped 2 (corrupted pairs)"
  by (simp_all add: well_shaped_def pairs_def)

lemma branches_Inr:
  assumes "branches initial V E H init g feats = Inr (sc, g')"
  shows "\<exists>th. shared_network initial V E H init g (original feats)
                 = Inr (original_output sc, g')
           \<and> shared_network initial V E H init g' (corrupted feats)
                 = Inr (corrupted_output sc, g')
           \<and> parameters g' = Some th
           \<and> original_output sc = map (spec_score th) (original feats)
           \<and> corrupted_output sc = map (spec_score th) (corrupted feats)
           \<and> (original feats = corrupted feats \<longrightarrow> original_output sc = corrupted_output sc)"
proof -
  from assms obtain out_o g1 where
    a: "shared_network initial V E H init g (original feats) = Inr (out_o, g1)"
    by (auto simp: branches_def split: sum.splits)
  with assms obtain out_c where
    b: "shared_network initial V E H init g1 (corrupted feats) = Inr (out_c, g')"
    by (auto simp: branches_def split: sum.splits)
  from assms a b have sc: "original_output sc = out_o" "corrupted_output sc = out_c"
    by (auto simp: branches_def)
  from shared_network_Inr[OF a] obtain th where
    th: "parameters g1 = Some th" "out_o = map (spec_score th) (original feats)" by blast
  have same: "g' = g1" using shared_network_fixed[OF th(1) b] .
  from shared_network_Inr[OF b] obtain th' where
    th': "parameters g' = Some th'" "out_c = map (spec_score th') (corrupted feats)" by blast
  from th(1) th'(1) same have "th' = th" by simp
  with a b sc th th' same show ?thesis by (intro exI[of _ th]) auto
qed

text \<open>
  C8. Within one run of the two branches, the original and the corrupted trigrams are
  scored by one function \<open>spec_score th\<close> with one set of parameter values \<open>th\<close>, the
  values that the graph holds under the five variable names: the second call of
  \<open>shared_network\<close> creates no variable and leaves the graph as the first call left it.
  So equal input batches give equal outputs.
\<close>

theorem branches_share_parameters:
  assumes "branches initial V E H init g feats = Inr (sc, g')"
  shows "\<exists>th. shared_network initial V E H init g (original feats)
                 = Inr (original_output sc, g')
           \<and> shared_network initial V E H init g' (corrupted feats)
                 = Inr (corrupted_output sc, g')
           \<and> parameters g' = Some th
           \<and> original_output sc = map (spec_score th) (original feats)
           \<and> corrupted_output sc = map (spec_score th) (corrupted feats)
           \<and> (original feats = corrupted feats \<longrightarrow> original_output sc = corrupted_output sc)"
  using assms by (rule branches_Inr)

theorem branches_share_parameters_witness:
  "\<exists>sc g' th. branches ramp 2 1 1 Glorot_uniform fresh pairs = Inr (sc, g')
     \<and> shared_network ramp 2 1 1 Glorot_uniform g' (corrupted pairs)
          = Inr (corrupted_output sc, g')
     \<and> parameters g' = Some th
     \<and> original_output sc = map (spec_score th) (original pairs)
     \<and> corrupted_output sc = map (spec_score th) (corrupted pairs)"
proof -
  from branches_runs[OF fresh_admits pairs_well_shaped, of ramp 1 1 Glorot_uniform]
  obtain sc g' where r: "branches ramp 2 1 1 Glorot_uniform fresh pairs = Inr (sc, g')"
    by blast
  from branches_share_parameters[OF r] r show ?thesis by blast
qed


lemma clip_bounds: "- 1 \<le> clip_by_value v (- 1) 1 \<and> clip_by_value v (- 1) 1 \<le> 1"
  by (simp add: clip_by_value_def)

lemma spec_hidden_bounds: "v \<in> set (spec_hidden th ids) \<Longrightarrow> - 1 \<le> v \<and> v \<le> 1"
  by (auto simp: spec_hidden_def Let_def)

lemma spec_score_two:
  "spec_score th ids
     = [affine (output_kernel th) (output_bias th) (spec_hidden th ids) 0,
        affine (output_kernel th) (output_bias th) (spec_hidden th ids) 1]"
  by (simp add: spec_score_def upt_rec numeral_2_eq_2)

lemma shared_network_layers:
  assumes "shared_network initial V E H init g x = Inr (out, g')"
  shows "\<exists>embeds hidden g1 g2 th.
            dense initial g1 ''shared_network/hidden'' (flatten embeds) (3 * E) H
              (\<lambda>v. clip_by_value v (- 1) 1) = Inr (hidden, g2)
          \<and> dense initial g2 ''shared_network/output'' hidden H 2 (\<lambda>v. v) = Inr (out, g')
          \<and> parameters g' = Some th \<and> length (hidden_bias th) = H
          \<and> hidden = map (spec_hidden th) x \<and> out = map (spec_score th) x"
proof -
  from assms obtain we g1 where
    w: "get_variable initial g ''shared_network/word_embeddings'' (V, E) init = Inr (we, g1)"
    by (auto simp: shared_network_def split: sum.splits)
  with assms obtain embeds where e: "embedding_lookup we x = Inr embeds"
    by (auto simp: shared_network_def split: sum.splits)
  with assms w obtain hidden g2 where
    h: "dense initial g1 ''shared_network/hidden'' (flatten embeds) (3 * E) H
          (\<lambda>x. clip_by_value x (- 1) 1) = Inr (hidden, g2)"
    by (auto simp: shared_network_def split: sum.splits)
  with assms w e have
    o: "dense initial g2 ''shared_network/output'' hidden H 2 (\<lambda>x. x) = Inr (out, g')"
    by (auto simp: shared_network_def)
  note dw = get_variable_Inr[OF w]
  from e have emb: "embeds = map (map (\<lambda>i. we ! nat i)) x"
    by (auto simp: embedding_lookup_def split: if_splits)
  let ?cc = "\<lambda>ids. concat (map (\<lambda>i. we ! nat i) ids)"
  have fl: "flatten embeds = map ?cc x" by (simp add: flatten_def emb comp_def)
  from dense_Inr[OF h] obtain K b where
    hk: "variables g2 (''shared_network/hidden'' @ ''/kernel'') = Some K"
        "variables g2 (''shared_network/hidden'' @ ''/bias'') = Some [b]"
        "length b = H"
        "list_all (\<lambda>row. length row = 3 * E) (flatten embeds)"
        "hidden = map (\<lambda>row. map (\<lambda>j. clip_by_value
                     ((\<Sum>i \<leftarrow> [0..<3 * E]. row ! i * K ! i ! j) + b ! j) (- 1) 1) [0..<H])
                   (flatten embeds)"
        "\<forall>m w. variables g1 m = Some w \<longrightarrow> variables g2 m = Some w"
    by blast
  from dense_Inr[OF o] obtain K2 b2 where
    ok: "variables g' (''shared_network/output'' @ ''/kernel'') = Some K2"
        "variables g' (''shared_network/output'' @ ''/bias'') = Some [b2]"
        "out = map (\<lambda>row. map (\<lambda>j. (\<Sum>i \<leftarrow> [0..<H]. row ! i * K2 ! i ! j) + b2 ! j) [0..<2])
                 hidden"
        "\<forall>m w. variables g2 m = Some w \<longrightarrow> variables g' m = Some w"
    by blast
  let ?th = "\<lparr>embedding_matrix = we, hidden_kernel = K, hidden_bias = b,
              output_kernel = K2, output_bias = b2\<rparr>"
  have vw: "variables g' ''shared_network/word_embeddings'' = Some we"
    using dw(2) hk(6) ok(4) by blast
  have vk: "variables g' ''shared_network/hidden/kernel'' = Some K"
    and vb: "variables g' ''shared_network/hidden/bias'' = Some [b]"
    using hk(1,2) ok(4) by auto
  have par: "parameters g' = Some ?th"
    using vw vk vb ok(1,2) by (simp add: parameters_def)
  have rows: "list_all (\<lambda>ids. length (?cc ids) = 3 * E) x"
    using hk(4) by (simp add: fl list_all_iff)
  have hid: "hidden = map (spec_hidden ?th) x"
  proof -
    have "map (\<lambda>j. clip_by_value ((\<Sum>i \<leftarrow> [0..<3 * E]. ?cc ids ! i * K ! i ! j) + b ! j)
             (- 1) 1) [0..<H] = spec_hidden ?th ids" if "ids \<in> set x" for ids
    proof -
      from rows that have "length (?cc ids) = 3 * E" by (simp add: list_all_iff)
      from hidden_row[OF this hk(3), of K] show ?thesis
        by (simp add: spec_hidden_def Let_def)
    qed
    then show ?thesis unfolding hk(5) fl by (simp add: comp_def)
  qed
  have lh: "length (spec_hidden ?th ids) = H" for ids
    using hk(3) by (simp add: spec_hidden_def Let_def)
  have sco: "out = map (spec_score ?th) x"
    unfolding ok(3) hid by (simp add: comp_def spec_score_def affine_def lh)
  from h o par hk(3) hid sco show ?thesis
    by (intro exI[of _ embeds] exI[of _ hidden] exI[of _ g1] exI[of _ g2] exI[of _ ?th]) simp
qed

text \<open>
  C9. In every run of \<open>shared_network\<close> that returns, under the parameter values
  \<open>th\<close> that the graph then holds, the hidden layer gives for each trigram the values
  \<open>spec_hidden th\<close>: the affine transform of the concatenated embedding rows, each
  value clipped as \<open>max (- 1) (min 1 v)\<close>, so every hidden activation lies in
  \<open>[-1, 1]\<close>. The output is, for each item, exactly two values, the affine transforms
  of the hidden activations at the two output units. The branches take the first as the
  syntactic score and the second as the sentiment score.
\<close>

theorem hidden_clipped_two_outputs:
  "(shared_network initial V E H init g x = Inr (out, g') \<longrightarrow>
      (\<exists>embeds hidden g1 g2 th.
          dense initial g1 ''shared_network/hidden'' (flatten embeds) (3 * E) H
            (\<lambda>v. clip_by_value v (- 1) 1) = Inr (hidden, g2)
        \<and> dense initial g2 ''shared_network/output'' hidden H 2 (\<lambda>v. v) = Inr (out, g')
        \<and> parameters g' = Some th
        \<and> hidden = map (spec_hidden th) x
        \<and> (\<forall>row \<in> set hidden. length row = H \<and> (\<forall>v \<in> set row. - 1 \<le> v \<and> v \<le> 1))
        \<and> out = map (\<lambda>ids.
                   [affine (output_kernel th) (output_bias th) (spec_hidden th ids) 0,
                    affine (output_kernel th) (output_bias th) (spec_hidden th ids) 1]) x))
   \<and> (branches initial V E H init g feats = Inr (sc, g'') \<longrightarrow>
      (\<exists>th. parameters g'' = Some th
        \<and> original_syntactic_score sc
            = map (\<lambda>ids. affine (output_kernel th) (output_bias th) (spec_hidden th ids) 0)
                (original feats)
        \<and> original_sentiment_score sc
            = map (\<lambda>ids. affine (output_kernel th) (output_bias th) (spec_hidden th ids) 1)
                (original feats)
        \<and> corrupted_syntactic_score sc
            = map (\<lambda>ids. affine (output_kernel th) (output_bias th) (spec_hidden th ids) 0)
                (corrupted feats)
        \<and> corrupted_sentiment_score sc
            = map (\<lambda>ids. affine (output_kernel th) (output_bias th) (spec_hidden th ids) 1)
                (corrupted feats)))"
proof (intro conjI impI)
  assume run: "shared_network initial V E H init g x = Inr (out, g')"
  from shared_network_layers[OF run] obtain embeds hidden g1 g2 th where
    l: "dense initial g1 ''shared_network/hidden'' (flatten embeds) (3 * E) H
          (\<lambda>v. clip_by_value v (- 1) 1) = Inr (hidden, g2)"
       "dense initial g2 ''shared_network/output'' hidden H 2 (\<lambda>v. v) = Inr (out, g')"
       "parameters g' = Some th" "length (hidden_bias th) = H"
       "hidden = map (spec_hidden th) x" "out = map (spec_score th) x"
    by blast
  have bound: "\<forall>row \<in> set hidden. length row = H \<and> (\<forall>v \<in> set row. - 1 \<le> v \<and> v \<le> 1)"
  proof
    fix row assume "row \<in> set hidden"
    then obtain ids where row: "row = spec_hidden th ids" unfolding l(5) by auto
    have "length row = H" using l(4) by (simp add: row spec_hidden_def Let_def)
    moreover have "\<forall>v \<in> set row. - 1 \<le> v \<and> v \<le> 1"
      unfolding row using spec_hidden_bounds by blast
    ultimately show "length row = H \<and> (\<forall>v \<in> set row. - 1 \<le> v \<and> v \<le> 1)" ..
  qed
  have out: "out = map (\<lambda>ids.
                   [affine (output_kernel th) (output_bias th) (spec_hidden th ids) 0,
                    affine (output_kernel th) (output_bias th) (spec_hidden th ids) 1]) x"
    unfolding l(6) by (simp add: spec_score_two)
  from l(1,2,3,5) bound out
  show "\<exists>embeds hidden g1 g2 th.
          dense initial g1 ''shared_network/hidden'' (flatten embeds) (3 * E) H
            (\<lambda>v. clip_by_value v (- 1) 1) = Inr (hidden, g2)
        \<and> dense initial g2 ''shared_network/output'' hidden H 2 (\<lambda>v. v) = Inr (out, g')
        \<and> parameters g' = Some th
        \<and> hidden = map (spec_hidden th) x
        \<and> (\<forall>row \<in> set hidden. length row = H \<and> (\<forall>v \<in> set row. - 1 \<le> v \<and> v \<le> 1))
        \<and> out = map (\<lambda>ids.
                   [affine (output_kernel th) (output_bias th) (spec_hidden th ids) 0,
                    affine (output_kernel th) (output_bias th) (spec_hidden th ids) 1]) x"
    by blast
next
  assume run: "branches initial V E H init g feats = Inr (sc, g'')"
  from branches_Inr[OF run] obtain th where
    p: "parameters g'' = Some th"
    and o: "original_output sc = map (spec_score th) (original feats)"
    and c: "corrupted_output sc = map (spec_score th) (corrupted feats)" by blast
  from run have cols:
    "original_syntactic_score sc = column 0 (original_output sc)"
    "original_sentiment_score sc = column 1 (original_output sc)"
    "corrupted_syntactic_score sc = column 0 (corrupted_output sc)"
    "corrupted_sentiment_score sc = column 1 (corrupted_output sc)"
    by (auto simp: branches_def split: sum.splits)
  have "original_syntactic_score sc
            = map (\<lambda>ids. affine (output_kernel th) (output_bias th) (spec_hidden th ids) 0)
                (original feats)"
    "original_sentiment_score sc
            = map (\<lambda>ids. affine (output_kernel th) (output_bias th) (spec_hidden th ids) 1)
                (original feats)"
    "corrupted_syntactic_score sc
            = map (\<lambda>ids. affine (output_kernel th) (output_bias th) (spec_hidden th ids) 0)
                (corrupted feats)"
    "corrupted_sentiment_score sc
            = map (\<lambda>ids. affine (output_kernel th) (output_bias th) (spec_hidden th ids) 1)
                (corrupted feats)"
    unfolding cols o c by (simp_all add: column_def spec_score_two comp_def)
  with p show "\<exists>th. parameters g'' = Some th
        \<and> original_syntactic_score sc
            = map (\<lambda>ids. affine (output_kernel th) (output_bias th) (spec_hidden th ids) 0)
                (original feats)
        \<and> original_sentiment_score sc
            = map (\<lambda>ids. affine (output_kernel th) (output_bias th) (spec_hidden th ids) 1)
                (original feats)
        \<and> corrupted_syntactic_score sc
            = map (\<lambda>ids. affine (output_kernel th) (output_bias th) (spec_hidden th ids) 0)
                (corrupted feats)
        \<and> corrupted_sentiment_score sc
            = map (\<lambda>ids. affine (output_kernel th) (output_bias th) (spec_hidden th ids) 1)
                (corrupted feats)"
    by blast
qed

theorem hidden_clipped_two_outputs_witness:
  "\<exists>out g' hidden th sc g'' th'.
      shared_network ramp 2 1 1 Glorot_uniform fresh (original pairs) = Inr (out, g')
    \<and> parameters g' = Some th
    \<and> hidden = map (spec_hidden th) (original pairs)
    \<and> list_all (\<lambda>row. length row = 1 \<and> list_all (\<lambda>v. - 1 \<le> v \<and> v \<le> 1) row) hidden
    \<and> out = map (\<lambda>ids.
               [affine (output_kernel th) (output_bias th) (spec_hidden th ids) 0,
                affine (output_kernel th) (output_bias th) (spec_hidden th ids) 1])
             (original pairs)
    \<and> branches ramp 2 1 1 Glorot_uniform fresh pairs = Inr (sc, g'')
    \<and> parameters g'' = Some th'
    \<and> original_syntactic_score sc
        = map (\<lambda>ids. affine (output_kernel th') (output_bias th') (spec_hidden th' ids) 0)
            (original pairs)
    \<and> corrupted_sentiment_score sc
        = map (\<lambda>ids. affine (output_kernel th') (output_bias th') (spec_hidden th' ids) 1)
            (corrupted pairs)"
proof -
  from shared_network_runs[OF fresh_admits pairs_well_shaped(1), of ramp 1 1 Glorot_uniform]
  obtain out g' where
    r: "shared_network ramp 2 1 1 Glorot_uniform fresh (original pairs) = Inr (out, g')"
    by blast
  from branches_runs[OF fresh_admits pairs_well_shaped, of ramp 1 1 Glorot_uniform]
  obtain sc g'' where b: "branches ramp 2 1 1 Glorot_uniform fresh pairs = Inr (sc, g'')"
    by blast
  note t = hidden_clipped_two_outputs
    [of ramp 2 1 1 Glorot_uniform fresh "original pairs" out g' pairs sc g'']
  from t r obtain hidden th where
    h: "parameters g' = Some th" "hidden = map (spec_hidden th) (original pairs)"
       "\<forall>row \<in> set hidden. length row = 1 \<and> (\<forall>v \<in> set row. - 1 \<le> v \<and> v \<le> 1)"
       "out = map (\<lambda>ids.
               [affine (output_kernel th) (output_bias th) (spec_hidden th ids) 0,
                affine (output_kernel th) (output_bias th) (spec_hidden th ids) 1])
             (original pairs)"
    by blast
  from t b obtain th' where
    s: "parameters g'' = Some th'"
       "original_syntactic_score sc
        = map (\<lambda>ids. affine (output_kernel th') (output_bias th') (spec_hidden th' ids) 0)
            (original pairs)"
       "corrupted_sentiment_score sc
        = map (\<lambda>ids. affine (output_kernel th') (output_bias th') (spec_hidden th' ids) 1)
            (corrupted pairs)"
    by blast
  from h(3) have "list_all (\<lambda>row. length row = 1 \<and> list_all (\<lambda>v. - 1 \<le> v \<and> v \<le> 1) row) hidden"
    by (simp add: list_all_iff)
  with r b h(1,2,4) s show ?thesis by blast
qed


section \<open>The loss\<close>

lemma map2_same: "map2 f (map g xs) (map h xs) = map (\<lambda>x. f (g x) (h x)) xs"
  by (induction xs) simp_all

lemma elementwise_same:
  "elementwise f (map g xs) (map h xs) = Inr (map (\<lambda>x. f (g x) (h x)) xs)"
  by (simp add: elementwise_def map2_same)

lemma spec_sentiment_loss_eq:
  "spec_sentiment_loss
     = (\<lambda>x. max 0 (1 - real_of_int (snd (snd (snd (snd x)))) * fst (snd x)
                  + real_of_int (snd (snd (snd (snd x)))) * fst (snd (snd (snd x)))))"
  by (rule ext) (simp add: spec_sentiment_loss_def split_def)

lemma spec_syntactic_loss_eq:
  "spec_syntactic_loss = (\<lambda>x. max 0 (1 - fst x + fst (snd (snd x))))"
  by (rule ext) (simp add: spec_syntactic_loss_def split_def)

lemma sentiment_loss_batch:
  "sentiment_loss (labels_of batch) (original_sentiment_score (scores_of batch))
     (corrupted_sentiment_score (scores_of batch))
   = Inr (if batch = [] then NaN else Num (spec_mean spec_sentiment_loss batch))"
proof -
  have "sentiment_loss (labels_of batch) (original_sentiment_score (scores_of batch))
          (corrupted_sentiment_score (scores_of batch))
        = Inr (reduce_mean (map spec_sentiment_loss batch))"
    by (simp add: sentiment_loss_def labels_of_def scores_of_def elementwise_same comp_def
        spec_sentiment_loss_eq split_def)
  then show ?thesis by (simp add: reduce_mean_def spec_mean_def)
qed

lemma syntactic_loss_batch:
  "syntactic_loss (original_syntactic_score (scores_of batch))
     (corrupted_syntactic_score (scores_of batch))
   = Inr (if batch = [] then NaN else Num (spec_mean spec_syntactic_loss batch))"
proof -
  have "syntactic_loss (original_syntactic_score (scores_of batch))
          (corrupted_syntactic_score (scores_of batch))
        = Inr (reduce_mean (map spec_syntactic_loss batch))"
    by (simp add: syntactic_loss_def scores_of_def elementwise_same comp_def
        spec_syntactic_loss_eq split_def)
  then show ?thesis by (simp add: reduce_mean_def spec_mean_def)
qed

lemma combined_loss_batch:
  "combined_loss alpha (Some (labels_of batch)) (scores_of batch)
     = Inr (if batch = [] then NaN else Num (spec_batch_loss alpha batch))"
  by (simp add: combined_loss_def sentiment_loss_batch syntactic_loss_batch scale_def add_def
      spec_batch_loss_def)


lemma map_by_index: "map f xs = map (\<lambda>i. f (xs ! i)) [0..<length xs]"
  by (intro nth_equalityI) simp_all

lemma spec_score_pair: "spec_score th ids ! 0 = a \<Longrightarrow> spec_score th ids ! 1 = b
    \<Longrightarrow> spec_score th ids = [a, b]"
  by (auto simp: spec_score_def upt_rec numeral_2_eq_2)

lemma scores_as_batch:
  assumes "branches initial V E H init g feats = Inr (sc, g')"
    and "length labels = length (original feats)"
    and "length (corrupted feats) = length (original feats)"
  shows "\<exists>batch. sc = scores_of batch \<and> labels = labels_of batch
           \<and> length batch = length labels"
proof -
  from assms(1) obtain out_o g1 where
    a: "shared_network initial V E H init g (original feats) = Inr (out_o, g1)"
    by (auto simp: branches_def split: sum.splits)
  with assms(1) obtain out_c where
    b: "shared_network initial V E H init g1 (corrupted feats) = Inr (out_c, g')"
    by (auto simp: branches_def split: sum.splits)
  from assms(1) a b have sc:
    "sc = \<lparr>original_output = out_o,
           original_syntactic_score = column 0 out_o,
           original_sentiment_score = column 1 out_o,
           corrupted_output = out_c,
           corrupted_syntactic_score = column 0 out_c,
           corrupted_sentiment_score = column 1 out_c\<rparr>"
    by (auto simp: branches_def)
  from shared_network_Inr[OF a] obtain th where
    o: "out_o = map (spec_score th) (original feats)" by blast
  from shared_network_Inr[OF b] obtain th' where
    c: "out_c = map (spec_score th') (corrupted feats)" by blast
  let ?n = "length labels"
  let ?batch = "map (\<lambda>i. (out_o ! i ! 0, out_o ! i ! 1, out_c ! i ! 0, out_c ! i ! 1, labels ! i))
                  [0..<?n]"
  have lo: "length out_o = ?n" and lc: "length out_c = ?n"
    using o c assms(2,3) by simp_all
  have ro: "out_o ! i = [out_o ! i ! 0, out_o ! i ! 1]" if "i < ?n" for i
  proof -
    from that lo o have "out_o ! i = spec_score th (original feats ! i)" by simp
    with spec_score_pair[of th "original feats ! i", OF refl refl] show ?thesis by simp
  qed
  have rc: "out_c ! i = [out_c ! i ! 0, out_c ! i ! 1]" if "i < ?n" for i
  proof -
    from that lc c have "out_c ! i = spec_score th' (corrupted feats ! i)" by simp
    with spec_score_pair[of th' "corrupted feats ! i", OF refl refl] show ?thesis by simp
  qed
  have 1: "map (\<lambda>(a, b, c, d, l). [a, b]) ?batch = out_o"
    using lo ro by (intro nth_equalityI) simp_all
  have 2: "map (\<lambda>(a, b, c, d, l). [c, d]) ?batch = out_c"
    using lc rc by (intro nth_equalityI) simp_all
  have 3: "map (\<lambda>(a, b, c, d, l). a) ?batch = column 0 out_o"
    "map (\<lambda>(a, b, c, d, l). b) ?batch = column 1 out_o"
    using lo by (simp_all add: column_def map_by_index[of _ out_o] comp_def)
  have 4: "map (\<lambda>(a, b, c, d, l). c) ?batch = column 0 out_c"
    "map (\<lambda>(a, b, c, d, l). d) ?batch = column 1 out_c"
    using lc by (simp_all add: column_def map_by_index[of _ out_c] comp_def)
  have 5: "labels_of ?batch = labels"
    by (simp add: labels_of_def comp_def map_nth)
  have "sc = scores_of ?batch"
    unfolding sc scores_of_def 1 2 3 4 ..
  with 5 show ?thesis by (intro exI[of _ ?batch]) simp
qed

lemma model_fn_runs:
  assumes "admits g V E H" and "well_shaped V (original feats)"
    and "well_shaped V (corrupted feats)"
    and "length labels = length (original feats)"
    and "length (corrupted feats) = length (original feats)"
  shows "\<exists>spec g'. model_fn initial md feats (Some labels) V alpha H lr E ie g = Inr (spec, g')"
proof -
  let ?init = "case ie of Some m \<Rightarrow> Constant m | None \<Rightarrow> Glorot_uniform"
  from branches_runs[OF assms(1,2,3), of initial ?init] obtain sc g' where
    r: "branches initial V E H ?init g feats = Inr (sc, g')" by blast
  from scores_as_batch[OF r assms(4,5)] obtain batch where
    "sc = scores_of batch" "labels = labels_of batch" by blast
  then have "\<exists>l. combined_loss alpha (Some labels) sc = Inr l"
    by (simp add: combined_loss_batch)
  with r show ?thesis by (auto simp: model_fn_def)
qed

text \<open>
  C2. In training and in evaluation mode, on a non-empty batch whose feature tensors and
  labels have one length, every result of \<open>model_fn\<close> carries the spec's loss: the
  scores of the two branches form a batch of samples
  \<open>(orig_syn, orig_sent, corr_syn, corr_sent, label)\<close> with the given labels, and the loss
  is \<open>alpha\<close> times the mean of \<open>max(0, 1 - orig_syn + corr_syn)\<close> plus \<open>1 - alpha\<close>
  times the mean of \<open>max(0, 1 - label * orig_sent + label * corr_sent)\<close>.
\<close>

theorem model_fn_loss:
  assumes "md = TRAIN \<or> md = EVAL"
    and "labels \<noteq> []"
    and "length labels = length (original feats)"
    and "length (corrupted feats) = length (original feats)"
    and "model_fn initial md feats (Some labels) V alpha H lr E ie g = Inr (spec, g')"
  shows "\<exists>sc batch.
            branches initial V E H (case ie of Some m \<Rightarrow> Constant m | None \<Rightarrow> Glorot_uniform)
              g feats = Inr (sc, g')
          \<and> sc = scores_of batch \<and> labels = labels_of batch
          \<and> loss spec = Some (Num (spec_batch_loss alpha batch))"
proof -
  let ?init = "case ie of Some m \<Rightarrow> Constant m | None \<Rightarrow> Glorot_uniform"
  from assms(5) obtain sc where r: "branches initial V E H ?init g feats = Inr (sc, g')"
    by (auto simp: model_fn_def split: sum.splits if_splits)
  from scores_as_batch[OF r assms(3,4)] obtain batch where
    b: "sc = scores_of batch" "labels = labels_of batch" "length batch = length labels"
    by blast
  from b(3) assms(2) have ne: "batch \<noteq> []" by auto
  have "combined_loss alpha (Some labels) sc = Inr (Num (spec_batch_loss alpha batch))"
    using b(1,2) ne by (simp add: combined_loss_batch)
  with assms(1,5) r have "loss spec = Some (Num (spec_batch_loss alpha batch))"
    by (auto simp: model_fn_def)
  with r b show ?thesis by blast
qed

theorem model_fn_loss_witness:
  "(TRAIN = TRAIN \<or> TRAIN = EVAL) \<and> [1, 1 :: int] \<noteq> []
   \<and> length [1, 1 :: int] = length (original pairs)
   \<and> length (corrupted pairs) = length (original pairs)
   \<and> (\<exists>spec g' batch.
         model_fn ramp TRAIN pairs (Some [1, 1]) 2 (1 / 2) 1 (1 / 10) 1 None fresh = Inr (spec, g')
       \<and> [1, 1] = labels_of batch
       \<and> loss spec = Some (Num (spec_batch_loss (1 / 2) batch)))"
proof -
  have l: "length [1, 1 :: int] = length (original pairs)"
    "length (corrupted pairs) = length (original pairs)"
    by (simp_all add: pairs_def)
  have ws: "well_shaped 2 (original pairs)" "well_shaped 2 (corrupted pairs)"
    by (simp_all add: well_shaped_def pairs_def)
  have ad: "admits fresh 2 1 1" by (simp add: admits_def admit_def fresh_def)
  from model_fn_runs[OF ad ws l, of ramp TRAIN "1 / 2" "1 / 10" None]
  obtain spec g' where
    r: "model_fn ramp TRAIN pairs (Some [1, 1]) 2 (1 / 2) 1 (1 / 10) 1 None fresh = Inr (spec, g')"
    by blast
  have m: "TRAIN = TRAIN \<or> TRAIN = EVAL" by simp
  have n: "[1, 1 :: int] \<noteq> []" by simp
  from model_fn_loss[OF m n l r] obtain batch where
    "[1, 1] = labels_of batch" "loss spec = Some (Num (spec_batch_loss (1 / 2) batch))"
    by blast
  with r l show ?thesis by blast
qed

lemma elementwise_alike:
  assumes "length xs' = length xs" and "length ys' = length ys"
  shows "(elementwise f xs' ys' = Inl InvalidArgumentError
            \<and> elementwise h xs ys = Inl InvalidArgumentError)
         \<or> (\<exists>zs' zs. elementwise f xs' ys' = Inr zs' \<and> elementwise h xs ys = Inr zs
               \<and> length zs' = length zs)"
  using assms by (simp add: elementwise_def)

lemma mean_alike:
  assumes "length zs' = length zs"
  shows "(reduce_mean (map f zs') = NaN \<and> reduce_mean (map h zs) = NaN)
         \<or> (\<exists>v w. reduce_mean (map f zs') = Num v \<and> reduce_mean (map h zs) = Num w)"
  using assms by (cases zs; cases zs') (simp_all add: reduce_mean_def)

lemma sentiment_loss_alike:
  assumes "length ls' = length ls"
  shows "(\<exists>e. sentiment_loss ls' a b = Inl e \<and> sentiment_loss ls a b = Inl e)
         \<or> (sentiment_loss ls' a b = Inr NaN \<and> sentiment_loss ls a b = Inr NaN)
         \<or> (\<exists>v w. sentiment_loss ls' a b = Inr (Num v) \<and> sentiment_loss ls a b = Inr (Num w))"
proof -
  have l: "length (map real_of_int ls') = length (map real_of_int ls)"
    using assms by simp
  from elementwise_alike[of "map real_of_int ls'" "map real_of_int ls" a a "(*)" "(*)", OF l refl]
  show ?thesis
  proof (elim disjE conjE exE)
    assume "elementwise (*) (map real_of_int ls') a = Inl InvalidArgumentError"
      "elementwise (*) (map real_of_int ls) a = Inl InvalidArgumentError"
    then show ?thesis by (simp add: sentiment_loss_def)
  next
    fix lo' lo
    assume lo: "elementwise (*) (map real_of_int ls') a = Inr lo'"
      "elementwise (*) (map real_of_int ls) a = Inr lo" "length lo' = length lo"
    from elementwise_alike[of "map real_of_int ls'" "map real_of_int ls" b b "(*)" "(*)", OF l refl]
    show ?thesis
    proof (elim disjE conjE exE)
      assume "elementwise (*) (map real_of_int ls') b = Inl InvalidArgumentError"
        "elementwise (*) (map real_of_int ls) b = Inl InvalidArgumentError"
      with lo show ?thesis by (simp add: sentiment_loss_def)
    next
      fix lc' lc
      assume lc: "elementwise (*) (map real_of_int ls') b = Inr lc'"
        "elementwise (*) (map real_of_int ls) b = Inr lc" "length lc' = length lc"
      have l2: "length (map (\<lambda>x. 1 - x) lo') = length (map (\<lambda>x. 1 - x) lo)"
        using lo(3) by simp
      from elementwise_alike[where f = "(+)" and h = "(+)", OF l2 lc(3)]
      show ?thesis
      proof (elim disjE conjE exE)
        assume "elementwise (+) (map (\<lambda>x. 1 - x) lo') lc' = Inl InvalidArgumentError"
          "elementwise (+) (map (\<lambda>x. 1 - x) lo) lc = Inl InvalidArgumentError"
        with lo lc show ?thesis by (simp add: sentiment_loss_def)
      next
        fix d' d
        assume d: "elementwise (+) (map (\<lambda>x. 1 - x) lo') lc' = Inr d'"
          "elementwise (+) (map (\<lambda>x. 1 - x) lo) lc = Inr d" "length d' = length d"
        from mean_alike[where f = "max 0" and h = "max 0", OF d(3)] lo lc d
        show ?thesis by (auto simp: sentiment_loss_def)
      qed
    qed
  qed
qed

lemma syntactic_loss_alike:
  assumes "length a' = length a" and "length c' = length c"
  shows "(\<exists>e. syntactic_loss a' c' = Inl e \<and> syntactic_loss a c = Inl e)
         \<or> (syntactic_loss a' c' = Inr NaN \<and> syntactic_loss a c = Inr NaN)
         \<or> (\<exists>v w. syntactic_loss a' c' = Inr (Num v) \<and> syntactic_loss a c = Inr (Num w))"
proof -
  have l: "length (map (\<lambda>x. 1 - x) a') = length (map (\<lambda>x. 1 - x) a)"
    using assms(1) by simp
  from elementwise_alike[where f = "(+)" and h = "(+)", OF l assms(2)]
  show ?thesis
  proof (elim disjE conjE exE)
    assume "elementwise (+) (map (\<lambda>x. 1 - x) a') c' = Inl InvalidArgumentError"
      "elementwise (+) (map (\<lambda>x. 1 - x) a) c = Inl InvalidArgumentError"
    then show ?thesis by (simp add: syntactic_loss_def)
  next
    fix d' d
    assume d: "elementwise (+) (map (\<lambda>x. 1 - x) a') c' = Inr d'"
      "elementwise (+) (map (\<lambda>x. 1 - x) a) c = Inr d" "length d' = length d"
    from mean_alike[where f = "max 0" and h = "max 0", OF d(3)] d
    show ?thesis by (auto simp: syntactic_loss_def)
  qed
qed

lemma combined_loss_labels:
  assumes "length ls' = length ls"
  shows "combined_loss 1 (Some ls') sc = combined_loss 1 (Some ls) sc"
  using sentiment_loss_alike[OF assms,
      of "original_sentiment_score sc" "corrupted_sentiment_score sc"]
  by (cases "syntactic_loss (original_syntactic_score sc) (corrupted_syntactic_score sc)")
    (auto simp: combined_loss_def scale_def add_def split: scalar.splits)

lemma combined_loss_syntactic:
  assumes "length a' = length (original_syntactic_score sc)"
    and "length c' = length (corrupted_syntactic_score sc)"
  shows "combined_loss 0 labels
           (sc\<lparr>original_syntactic_score := a', corrupted_syntactic_score := c'\<rparr>)
         = combined_loss 0 labels sc"
proof (cases labels)
  case None
  then show ?thesis by (simp add: combined_loss_def)
next
  case (Some ls)
  show ?thesis
    using syntactic_loss_alike[OF assms] Some
    by (cases "sentiment_loss ls (original_sentiment_score sc) (corrupted_sentiment_score sc)")
      (auto simp: combined_loss_def scale_def add_def split: scalar.splits)
qed

text \<open>
  C7. With \<open>alpha = 1\<close> the loss of fixed scores, and with it the whole result of
  \<open>model_fn\<close>, is the same for any two label tensors of one length, so also after
  flipping every label. With \<open>alpha = 0\<close> the loss is the same after replacing the
  syntactic scores by any tensors of their lengths.
\<close>

theorem loss_alpha_extremes:
  "(length ls' = length ls \<longrightarrow>
      combined_loss 1 (Some ls') sc = combined_loss 1 (Some ls) sc
      \<and> model_fn initial md feats (Some ls') V 1 H lr E ie g
          = model_fn initial md feats (Some ls) V 1 H lr E ie g)
   \<and> (length a' = length (original_syntactic_score sc)
        \<and> length c' = length (corrupted_syntactic_score sc) \<longrightarrow>
      combined_loss 0 labels
        (sc\<lparr>original_syntactic_score := a', corrupted_syntactic_score := c'\<rparr>)
      = combined_loss 0 labels sc)"
proof (intro conjI impI)
  assume l: "length ls' = length ls"
  show "combined_loss 1 (Some ls') sc = combined_loss 1 (Some ls) sc"
    using l by (rule combined_loss_labels)
  show "model_fn initial md feats (Some ls') V 1 H lr E ie g
          = model_fn initial md feats (Some ls) V 1 H lr E ie g"
  proof (cases "branches initial V E H
      (case ie of Some m \<Rightarrow> Constant m | None \<Rightarrow> Glorot_uniform) g feats")
    case (Inl e)
    then show ?thesis by (simp add: model_fn_def)
  next
    case (Inr r)
    then show ?thesis
      by (cases r) (simp add: model_fn_def combined_loss_labels[OF l])
  qed
next
  assume "length a' = length (original_syntactic_score sc)
        \<and> length c' = length (corrupted_syntactic_score sc)"
  then show "combined_loss 0 labels
        (sc\<lparr>original_syntactic_score := a', corrupted_syntactic_score := c'\<rparr>)
      = combined_loss 0 labels sc"
    by (intro combined_loss_syntactic) simp_all
qed


theorem loss_alpha_extremes_witness:
  "length [- 1, 1 :: int] = length [1, - 1 :: int]
   \<and> combined_loss 1 (Some [- 1, 1]) (scores_of [(2, 3, 1, 1 / 2, 1), (0, 0, 1, 1, - 1)])
       = combined_loss 1 (Some [1, - 1]) (scores_of [(2, 3, 1, 1 / 2, 1), (0, 0, 1, 1, - 1)])
   \<and> combined_loss 1 (Some [1, - 1]) (scores_of [(2, 3, 1, 1 / 2, 1), (0, 0, 1, 1, - 1)])
       = Inr (Num 1)
   \<and> combined_loss 0 (Some [1, - 1])
        ((scores_of [(2, 3, 1, 1 / 2, 1), (0, 0, 1, 1, - 1)])
           \<lparr>original_syntactic_score := [5, 5], corrupted_syntactic_score := [0, 7]\<rparr>)
       = combined_loss 0 (Some [1, - 1]) (scores_of [(2, 3, 1, 1 / 2, 1), (0, 0, 1, 1, - 1)])"
proof -
  let ?sc = "scores_of [(2, 3, 1, 1 / 2, 1), (0, 0, 1, 1, - 1)]"
  have l: "length [- 1, 1 :: int] = length [1, - 1 :: int]" by simp
  have s: "length [5, 5 :: real] = length (original_syntactic_score ?sc)
        \<and> length [0, 7 :: real] = length (corrupted_syntactic_score ?sc)"
    by (simp add: scores_of_def)
  have v: "combined_loss 1 (Some [1, - 1]) ?sc = Inr (Num 1)"
    using combined_loss_batch[of 1 "[(2, 3, 1, 1 / 2, 1), (0, 0, 1, 1, - 1)]"]
    by (simp add: labels_of_def spec_batch_loss_def spec_mean_def spec_syntactic_loss_def)
  from loss_alpha_extremes
    [of "[- 1, 1]" "[1, - 1]" ?sc ramp TRAIN pairs 2 1 1 1 None fresh "[5, 5]" "[0, 7]"
      "Some [1, - 1]"] l s v
  show ?thesis by simp
qed


section \<open>The start of a run\<close>

lemma both_given_vocabulary: "args_vocabulary both_given = Some ''vocab.txt''"
  by (simp add: both_given_def)

lemma both_given_initial_embeddings:
  "args_initial_embeddings both_given = Some ''embeddings.csv''"
  by (simp add: both_given_def)

lemma embeddings_only_load:
  "embedding_load embeddings_only ''embeddings.csv''
     = Inr ([''good'', ''bad''], \<lparr>nd_shape = [2, 1], nd_rows = [[0], [1]]\<rparr>)"
  by (simp add: embeddings_only_def)

lemma embeddings_only_launch:
  "launch_training embeddings_only both_given [''good'', ''bad'']
     (Some \<lparr>nd_shape = [2, 1], nd_rows = [[0], [1]]\<rparr>)
   = Inr \<lparr>estimator_config = \<lparr>config_model_dir = Some ''model'', keep_checkpoint_max = 5\<rparr>,
          estimator_model_dir = ''model'',
          model_vocabulary_size = 2, model_alpha = 1 / 2, model_hidden_units = 20,
          model_learning_rate = 1 / 10, model_embedding_size = 1,
          model_initial_embedding = Some [[0], [1]],
          input_csv = ''tweets.csv'', input_vocabulary = [''good'', ''bad''],
          input_num_epochs = 10, input_batch_size = 32\<rparr>"
  by (simp add: launch_training_def py_index_def embeddings_only_def)
    (simp add: both_given_def)

text \<open>
  Given both paths, with only the embeddings file readable, \<open>main\<close> prints the line of
  the embeddings branch, raises nothing and launches training on the vocabulary of the
  embeddings file.
\<close>

theorem main_both_given_counterexample:
  "args_vocabulary both_given = Some ''vocab.txt''
   \<and> args_initial_embeddings both_given = Some ''embeddings.csv''
   \<and> main embeddings_only both_given
       = ([''Loading embeddings from file...''],
          Inr \<lparr>estimator_config =
                 \<lparr>config_model_dir = Some ''model'', keep_checkpoint_max = 5\<rparr>,
               estimator_model_dir = ''model'',
               model_vocabulary_size = 2, model_alpha = 1 / 2, model_hidden_units = 20,
               model_learning_rate = 1 / 10, model_embedding_size = 1,
               model_initial_embedding = Some [[0], [1]],
               input_csv = ''tweets.csv'', input_vocabulary = [''good'', ''bad''],
               input_num_epochs = 10, input_batch_size = 32\<rparr>)"
proof -
  have "main embeddings_only both_given
       = ([''Loading embeddings from file...''],
          launch_training embeddings_only both_given [''good'', ''bad'']
            (Some \<lparr>nd_shape = [2, 1], nd_rows = [[0], [1]]\<rparr>))"
    by (simp add: main_def both_given_vocabulary both_given_initial_embeddings
        embeddings_only_load)
  with both_given_vocabulary both_given_initial_embeddings embeddings_only_launch
  show ?thesis by simp
qed

lemma launch_training_vocabulary:
  "launch_training (c\<lparr>load_vocab := f\<rparr>) (a\<lparr>args_vocabulary := v\<rparr>) words m
     = launch_training c a words m"
  by (simp add: launch_training_def split: sum.splits option.splits)

text \<open>
  C6, as the code has it. When an initial-embeddings path is given, with or without a
  vocabulary path, \<open>main\<close> prints the line of the embeddings branch and goes on with the
  vocabulary and the matrix of the embeddings file; nothing is rejected for the two
  options being given together. The vocabulary path and the reader of vocabulary files
  have no influence on the run.
\<close>

theorem main_prefers_initial_embeddings:
  assumes "args_initial_embeddings a = Some path"
  shows "main c a =
           ([''Loading embeddings from file...''],
            (case embedding_load c path of
               Inl e \<Rightarrow> Inl e
             | Inr (words, matrix) \<Rightarrow> launch_training c a words (Some matrix)))
         \<and> main (c\<lparr>load_vocab := f\<rparr>) (a\<lparr>args_vocabulary := v\<rparr>) = main c a"
proof -
  have m: "main d b =
           ([''Loading embeddings from file...''],
            (case embedding_load d path of
               Inl e \<Rightarrow> Inl e
             | Inr (words, matrix) \<Rightarrow> launch_training d b words (Some matrix)))"
    if "args_initial_embeddings b = Some path" for b d
    using that by (cases "args_vocabulary b") (simp_all add: main_def)
  have "main (c\<lparr>load_vocab := f\<rparr>) (a\<lparr>args_vocabulary := v\<rparr>) = main c a"
  proof (cases "embedding_load c path")
    case (Inl e)
    with m[of a c] m[of "a\<lparr>args_vocabulary := v\<rparr>" "c\<lparr>load_vocab := f\<rparr>"] assms
    show ?thesis by simp
  next
    case (Inr r)
    obtain words matrix where "r = (words, matrix)" by (cases r)
    with Inr m[of a c] m[of "a\<lparr>args_vocabulary := v\<rparr>" "c\<lparr>load_vocab := f\<rparr>"] assms
    show ?thesis by (simp add: launch_training_vocabulary)
  qed
  with m[OF assms, of c] show ?thesis by simp
qed

theorem main_prefers_initial_embeddings_witness:
  "args_initial_embeddings both_given = Some ''embeddings.csv''
   \<and> main (embeddings_only\<lparr>load_vocab := unreadable\<rparr>) (both_given\<lparr>args_vocabulary := None\<rparr>)
       = main embeddings_only both_given
   \<and> main embeddings_only both_given
       = ([''Loading embeddings from file...''],
          launch_training embeddings_only both_given [''good'', ''bad'']
            (Some \<lparr>nd_shape = [2, 1], nd_rows = [[0], [1]]\<rparr>))"
proof -
  have a: "args_initial_embeddings both_given = Some ''embeddings.csv''"
    by (rule both_given_initial_embeddings)
  from main_prefers_initial_embeddings[OF a, of embeddings_only unreadable None] a
  show ?thesis by (simp add: embeddings_only_load)
qed

end
